theory Spec2Isabelle
  imports Complex_Main
begin

section \<open>Python strings\<close>

text \<open>
  Python \<open>str\<close> values are modelled as \<open>string\<close>, one \<open>char\<close> per character
  (code points below 256). \<open>py_isspace\<close> is Python's notion of whitespace on that
  range, as used by \<open>str.strip()\<close> and \<open>str.split()\<close>.
\<close>

definition py_isspace :: "char \<Rightarrow> bool" where
  "py_isspace c =
     (c \<in> set [CHR 0x09, CHR 0x0A, CHR 0x0B, CHR 0x0C, CHR 0x0D, CHR 0x1C, CHR 0x1D, CHR 0x1E,
                CHR 0x1F, CHR 0x20, CHR 0x85, CHR 0xA0])"

definition py_strip :: "string \<Rightarrow> string" where
  "py_strip s = rev (dropWhile py_isspace (rev (dropWhile py_isspace s)))"

fun py_join :: "string \<Rightarrow> string list \<Rightarrow> string" where
  "py_join sep [] = []"
| "py_join sep [x] = x"
| "py_join sep (x # y # ys) = x @ sep @ py_join sep (y # ys)"

text \<open>
  \<open>s.split()\<close>: the maximal runs of non-whitespace characters, in order. The first
  argument is the word being read, reversed.
\<close>

fun split_ws :: "string \<Rightarrow> string \<Rightarrow> string list" where
  "split_ws w [] = (if w = [] then [] else [rev w])"
| "split_ws w (c # cs) =
     (if py_isspace c then (if w = [] then split_ws [] cs else rev w # split_ws [] cs)
      else split_ws (c # w) cs)"

definition py_split :: "string \<Rightarrow> string list" where
  "py_split s = split_ws [] s"

fun starts_with :: "string \<Rightarrow> string \<Rightarrow> bool" where
  "starts_with [] s = True"
| "starts_with (p # ps) [] = False"
| "starts_with (p # ps) (c # cs) = (p = c \<and> starts_with ps cs)"

text \<open>\<open>sub in s\<close> on strings: \<open>sub\<close> occurs in \<open>s\<close> as a contiguous substring.\<close>

fun py_in :: "string \<Rightarrow> string \<Rightarrow> bool" where
  "py_in sub [] = (sub = [])"
| "py_in sub (c # cs) = (starts_with sub (c # cs) \<or> py_in sub cs)"

text \<open>
  \<open>s.split(sep)\<close> for a non-empty separator: cut at the non-overlapping occurrences of
  \<open>sep\<close>, scanning from the left; empty pieces are kept. The second argument is the
  piece being read, reversed. (Python raises \<open>ValueError\<close> on an empty separator; the
  only separator the program uses is \<open>". "\<close>.)
\<close>

function split_sep :: "string \<Rightarrow> string \<Rightarrow> string \<Rightarrow> string list" where
  "split_sep sep w [] = [rev w]"
| "split_sep sep w (c # cs) =
     (if sep \<noteq> [] \<and> starts_with sep (c # cs)
      then rev w # split_sep sep [] (drop (length sep) (c # cs))
      else split_sep sep (c # w) cs)"
  by pat_completeness auto
termination
  by (relation "measure (\<lambda>(sep, w, s). length s)") (auto simp: neq_Nil_conv)

definition py_split_on :: "string \<Rightarrow> string \<Rightarrow> string list" where
  "py_split_on sep s = split_sep sep [] s"

section \<open>The parsed document\<close>

text \<open>
  \<open>BeautifulSoup(html, "html.parser")\<close> is a library call; its result is modelled as a
  tree of tags and text nodes, and the parser itself is a parameter of the model
  (\<open>html_parser\<close> below). A tag's attributes are the association list of its \<open>attrs\<close>
  dictionary.
\<close>

datatype node = NavigableString string | Tag string "(string \<times> string) list" "node list"

type_synonym soup = "node list"

datatype py_error = KeyError string | BrowserLaunchError

fun tag_name :: "node \<Rightarrow> string option" where
  "tag_name (NavigableString t) = None"
| "tag_name (Tag n as cs) = Some n"

fun attrs :: "node \<Rightarrow> (string \<times> string) list" where
  "attrs (NavigableString t) = []"
| "attrs (Tag n as cs) = as"

fun contents :: "node \<Rightarrow> node list" where
  "contents (NavigableString t) = []"
| "contents (Tag n as cs) = cs"

text \<open>
  \<open>for element in soup([...]): element.decompose()\<close>: every tag whose name is listed is
  removed from the tree together with its subtree.
\<close>

fun decompose :: "string list \<Rightarrow> node \<Rightarrow> node list"
  and decompose_all :: "string list \<Rightarrow> node list \<Rightarrow> node list" where
  "decompose ns (NavigableString t) = [NavigableString t]"
| "decompose ns (Tag n as cs) = (if n \<in> set ns then [] else [Tag n as (decompose_all ns cs)])"
| "decompose_all ns [] = []"
| "decompose_all ns (c # cs) = decompose ns c @ decompose_all ns cs"

text \<open>All nodes below a list of nodes, in document order.\<close>

fun descendants :: "node \<Rightarrow> node list"
  and descendants_all :: "node list \<Rightarrow> node list" where
  "descendants (NavigableString t) = [NavigableString t]"
| "descendants (Tag n as cs) = Tag n as cs # descendants_all cs"
| "descendants_all [] = []"
| "descendants_all (c # cs) = descendants c @ descendants_all cs"

definition find_all :: "string \<Rightarrow> node list \<Rightarrow> node list" where
  "find_all name cs = filter (\<lambda>x. tag_name x = Some name) (descendants_all cs)"

definition find_tag :: "string \<Rightarrow> node list \<Rightarrow> node option" where
  "find_tag name cs = List.find (\<lambda>x. tag_name x = Some name) (descendants_all cs)"

text \<open>\<open>soup.find("meta", attrs={"name": v})\<close>.\<close>

definition find_meta :: "string \<Rightarrow> node list \<Rightarrow> node option" where
  "find_meta v cs =
     List.find (\<lambda>x. tag_name x = Some ''meta'' \<and> map_of (attrs x) ''name'' = Some v)
       (descendants_all cs)"

text \<open>\<open>soup.find_all("a", href=True)\<close>.\<close>

definition find_all_a_href :: "node list \<Rightarrow> node list" where
  "find_all_a_href cs =
     filter (\<lambda>x. tag_name x = Some ''a'' \<and> map_of (attrs x) ''href'' \<noteq> None)
       (descendants_all cs)"

fun get_text :: "node \<Rightarrow> string"
  and get_text_all :: "node list \<Rightarrow> string" where
  "get_text (NavigableString t) = t"
| "get_text (Tag n as cs) = get_text_all cs"
| "get_text_all [] = []"
| "get_text_all (c # cs) = get_text c @ get_text_all cs"

text \<open>
  The \<open>.string\<close> property of a tag: the text of its only child, followed through
  single-child tags; Python's \<open>None\<close> otherwise.
\<close>

fun tag_string :: "node \<Rightarrow> string option" where
  "tag_string (NavigableString t) = Some t"
| "tag_string (Tag n as [c]) = tag_string c"
| "tag_string (Tag n as cs) = None"

text \<open>\<open>tag[key]\<close> raises \<open>KeyError\<close> when the tag has no such attribute.\<close>

definition getitem :: "node \<Rightarrow> string \<Rightarrow> py_error + string" where
  "getitem t key = (case map_of (attrs t) key of None \<Rightarrow> Inl (KeyError key) | Some v \<Rightarrow> Inr v)"

section \<open>WebScraper: configuration and content extraction\<close>

record config =
  user_agent :: string
  rate_limit :: real
  timeout :: real
  max_retries :: int
  enable_js :: bool
  summarize_content :: bool

definition default_config :: config where
  "default_config =
     \<lparr>user_agent = ''Mozilla/5.0 (Windows NT 10.0; Win64; x64) AppleWebKit/537.36 (KHTML, like Gecko) Chrome/114.0.0.0 Safari/537.36'',
      rate_limit = 1, timeout = 10, max_retries = 3, enable_js = False,
      summarize_content = True\<rparr>"

text \<open>
  The result dictionary of \<open>extract_content\<close> and \<open>scrape_page\<close>. \<open>title = None\<close> is
  Python's \<open>None\<close> (a title tag without a single string); \<open>description\<close> and
  \<open>meta_keywords\<close> (the key \<open>keywords\<close>) are \<open>None\<close> where the dictionary has no such key.
\<close>

record scraped =
  title :: "string option"
  description :: "string option"
  meta_keywords :: "string option"
  content :: string
  links :: "string list"

record metadata =
  md_title :: "string option"
  md_description :: string
  md_keywords :: string

definition meta_content :: "string \<Rightarrow> string \<Rightarrow> soup \<Rightarrow> py_error + string" where
  "meta_content name dflt sp =
     (case find_meta name sp of None \<Rightarrow> Inr dflt | Some m \<Rightarrow> getitem m ''content'')"

definition extract_metadata :: "soup \<Rightarrow> py_error + metadata" where
  "extract_metadata sp =
     (let t = (case find_tag ''title'' sp of None \<Rightarrow> Some ''No Title'' | Some tt \<Rightarrow> tag_string tt)
      in case meta_content ''description'' ''No Description'' sp of
           Inl e \<Rightarrow> Inl e
         | Inr d \<Rightarrow>
             (case meta_content ''keywords'' ''No Keywords'' sp of
                Inl e \<Rightarrow> Inl e
              | Inr k \<Rightarrow> Inr \<lparr>md_title = t, md_description = d, md_keywords = k\<rparr>))"

definition summarize_text :: "string \<Rightarrow> string" where
  "summarize_text text =
     (let sentences = py_split_on ''. '' text
      in if length sentences > 3 then py_join ''. '' (take 3 sentences) @ ''...'' else text)"

text \<open>
  \<open>main_content\<close>: the children of the first \<open>main\<close>, \<open>article\<close>, \<open>section\<close> or \<open>div\<close>
  tag, in this order of preference, or the whole document.
\<close>

definition main_content :: "soup \<Rightarrow> node list" where
  "main_content sp =
     (case find_tag ''main'' sp of Some m \<Rightarrow> contents m | None \<Rightarrow>
      (case find_tag ''article'' sp of Some m \<Rightarrow> contents m | None \<Rightarrow>
       (case find_tag ''section'' sp of Some m \<Rightarrow> contents m | None \<Rightarrow>
        (case find_tag ''div'' sp of Some m \<Rightarrow> contents m | None \<Rightarrow> sp))))"

definition boilerplate :: "string list" where
  "boilerplate = [''script'', ''style'', ''nav'', ''footer'', ''header'']"

text \<open>The paragraph text of line 125: joined, then cut to 2400 characters.\<close>

definition paragraph_text :: "soup \<Rightarrow> string" where
  "paragraph_text sp =
     take 2400 (py_join '' '' (map (\<lambda>p. py_strip (get_text p)) (find_all ''p'' (main_content sp))))"

text \<open>The list comprehension of lines 126-127, before the slice.\<close>

definition resolved_links :: "(string \<Rightarrow> string \<Rightarrow> string) \<Rightarrow> string \<Rightarrow> soup \<Rightarrow> string list" where
  "resolved_links urljoin url sp =
     map (\<lambda>a. urljoin url (the (map_of (attrs a) ''href''))) (find_all_a_href sp)"

text \<open>
  \<open>list(set(links))\<close>: the distinct elements of \<open>links\<close>. Python leaves their order
  open; the model keeps one fixed order, and the general theorems below speak of the
  set of the elements only.
\<close>

definition list_set :: "string list \<Rightarrow> string list" where
  "list_set xs = remdups xs"

definition extract_content ::
  "config \<Rightarrow> (string \<Rightarrow> soup) \<Rightarrow> (string \<Rightarrow> string \<Rightarrow> string) \<Rightarrow> string \<Rightarrow> string
     \<Rightarrow> py_error + scraped" where
  "extract_content cfg html_parser urljoin html url =
     (let sp = decompose_all boilerplate (html_parser html)
      in case extract_metadata sp of
           Inl e \<Rightarrow> Inl e
         | Inr md \<Rightarrow>
             (let content0 = paragraph_text sp;
                  links0 = take 10 (resolved_links urljoin url sp);
                  content1 = (if summarize_content cfg \<and> length (py_split content0) > 100
                              then summarize_text content0 else content0)
              in Inr \<lparr>title = md_title md,
                      description = Some (md_description md),
                      meta_keywords = Some (md_keywords md),
                      content = (if content1 = [] then ''No main content found.'' else content1),
                      links = list_set links0\<rparr>))"

section \<open>The environment, the scraper state and its effects\<close>

text \<open>
  What the program reads from the outside is a parameter of the model: the library
  functions \<open>BeautifulSoup\<close>, \<open>urljoin\<close> and \<open>urlparse(url).netloc\<close>, and the outcome of
  each network operation as a function of the request and of the time at which it is
  made, with the time the operation takes. \<open>robots\<close> stands for lines 43-49 of
  \<open>can_fetch\<close> (read the site's robots.txt, ask the parser): it either raises or answers,
  and \<open>robot_file_parser\<close> below says which, for each way the retrieval can end;
  \<open>http_get\<close> for \<open>requests.get\<close> followed by \<open>raise_for_status\<close>; \<open>js_page\<close> for
  the headless browser, which can fail before the \<open>try\<close> (launch) or inside it;
  \<open>search\<close> for \<open>SearchModule.search\<close>, which catches every exception itself.
\<close>

datatype robots_outcome = RobotsRaises | RobotsAnswer bool

text \<open>
  What \<open>urllib.robotparser.RobotFileParser\<close> of the standard library makes of the
  retrieval of robots.txt. \<open>read()\<close> lets a transport error and an undecodable body
  escape as exceptions. It catches an HTTP error status: 401 and 403 set \<open>disallow_all\<close>,
  the other statuses from 400 to 499 set \<open>allow_all\<close>, any other status sets nothing, and
  \<open>can_fetch\<close> then answers \<open>False\<close> because no file was ever parsed. A retrieved file
  is parsed, malformed lines are skipped, and its rules answer for the user agent
  and the URL.
\<close>

datatype robots_response = TransportError | HttpError nat | Undecodable | Parsed bool

definition robot_file_parser :: "robots_response \<Rightarrow> robots_outcome" where
  "robot_file_parser resp =
     (case resp of
        TransportError \<Rightarrow> RobotsRaises
      | Undecodable \<Rightarrow> RobotsRaises
      | HttpError code \<Rightarrow>
          (if code = 401 \<or> code = 403 then RobotsAnswer False
           else if 400 \<le> code \<and> code < 500 then RobotsAnswer True
           else RobotsAnswer False)
      | Parsed b \<Rightarrow> RobotsAnswer b)"

datatype http_outcome = RequestException | Response string

datatype js_outcome = LaunchRaises | RenderRaises | Rendered string

record search_result =
  result_title :: string
  link :: string
  snippet :: string

record search_opts =
  time_range :: "string option"
  include_keywords :: "string list option"
  exclude_keywords :: "string list option"

record world =
  html_parser :: "string \<Rightarrow> soup"
  urljoin :: "string \<Rightarrow> string \<Rightarrow> string"
  netloc :: "string \<Rightarrow> string"
  robots :: "string \<Rightarrow> string \<Rightarrow> real \<Rightarrow> robots_outcome \<times> real"
  http_get :: "string \<Rightarrow> real \<Rightarrow> string \<Rightarrow> real \<Rightarrow> http_outcome \<times> real"
  js_page :: "string \<Rightarrow> real \<Rightarrow> string \<Rightarrow> real \<Rightarrow> js_outcome \<times> real"
  search :: "string \<Rightarrow> search_opts \<Rightarrow> real \<Rightarrow> search_result list"

text \<open>
  Time is an exact real number of seconds: \<open>time.time()\<close> reads \<open>clock\<close>,
  \<open>time.sleep(d)\<close> advances it by \<open>d\<close>, a network operation by the time it takes.
  \<open>trace\<close> records, oldest first, what the program did: it is not a field of the
  Python object, the theorems use it to speak about attempts, sleeps and log lines.
\<close>

datatype log_level = LogInfo | LogWarning | LogError | ConsolePrint

datatype sleep_site = RateLimit | Backoff

datatype event =
    RobotsRead string
  | RateStamp string real
  | Sleep sleep_site real
  | HttpGet string real
  | JsGoto string real
  | SearchCall string
  | Log log_level string

record state =
  clock :: real
  last_request_time :: "string \<rightharpoonup> real"
  trace :: "event list"

definition init_state :: "real \<Rightarrow> state" where
  "init_state t = \<lparr>clock = t, last_request_time = Map.empty, trace = []\<rparr>"

definition emit :: "event \<Rightarrow> state \<Rightarrow> state" where
  "emit e s = s\<lparr>trace := trace s @ [e]\<rparr>"

definition advance :: "real \<Rightarrow> state \<Rightarrow> state" where
  "advance d s = s\<lparr>clock := clock s + d\<rparr>"

definition sleep :: "sleep_site \<Rightarrow> real \<Rightarrow> state \<Rightarrow> state" where
  "sleep site d s = advance d (emit (Sleep site d) s)"

section \<open>WebScraper: policy, rate limit, fetch, scrape\<close>

definition can_fetch :: "config \<Rightarrow> world \<Rightarrow> string \<Rightarrow> state \<Rightarrow> bool \<times> state" where
  "can_fetch cfg w url s =
     (let r = robots w (user_agent cfg) url (clock s);
          s1 = advance (snd r) (emit (RobotsRead url) s)
      in case fst r of
           RobotsAnswer b \<Rightarrow> (b, s1)
         | RobotsRaises \<Rightarrow> (True, emit (Log LogWarning url) s1))"

definition respect_rate_limit :: "config \<Rightarrow> world \<Rightarrow> string \<Rightarrow> state \<Rightarrow> state" where
  "respect_rate_limit cfg w url s =
     (let domain = netloc w url;
          current_time = clock s;
          s1 = (case last_request_time s domain of
                  None \<Rightarrow> s
                | Some last_time \<Rightarrow>
                    (let elapsed_time = current_time - last_time
                     in if elapsed_time < rate_limit cfg
                        then sleep RateLimit (rate_limit cfg - elapsed_time) s else s))
      in emit (RateStamp domain (clock s1))
           (s1\<lparr>last_request_time := (last_request_time s1)(domain \<mapsto> clock s1)\<rparr>))"

text \<open>The body of \<open>fetch_page\<close>, for the attempts still to be made.\<close>

fun fetch_attempts :: "config \<Rightarrow> world \<Rightarrow> string \<Rightarrow> nat list \<Rightarrow> state \<Rightarrow> string option \<times> state" where
  "fetch_attempts cfg w url [] s = (None, emit (Log LogError url) s)"
| "fetch_attempts cfg w url (attempt # rest) s =
     (let s1 = respect_rate_limit cfg w url s;
          r = http_get w (user_agent cfg) (timeout cfg) url (clock s1);
          s2 = advance (snd r) (emit (HttpGet url (clock s1)) s1)
      in case fst r of
           Response text \<Rightarrow> (Some text, s2)
         | RequestException \<Rightarrow>
             fetch_attempts cfg w url rest
               (sleep Backoff (2 ^ attempt) (emit (Log LogWarning url) s2)))"

definition fetch_page :: "config \<Rightarrow> world \<Rightarrow> string \<Rightarrow> state \<Rightarrow> string option \<times> state" where
  "fetch_page cfg w url s = fetch_attempts cfg w url [0..<nat (max_retries cfg)] s"

definition fetch_js_page ::
  "config \<Rightarrow> world \<Rightarrow> string \<Rightarrow> state \<Rightarrow> (py_error + string option) \<times> state" where
  "fetch_js_page cfg w url s =
     (if \<not> enable_js cfg then (Inr None, emit (Log LogWarning url) s)
      else
        (let r = js_page w (user_agent cfg) (timeout cfg * 1000) url (clock s);
             s1 = advance (snd r) (emit (JsGoto url (clock s)) s)
         in case fst r of
              LaunchRaises \<Rightarrow> (Inl BrowserLaunchError, s1)
            | RenderRaises \<Rightarrow> (Inr None, emit (Log LogError url) s1)
            | Rendered c \<Rightarrow> (Inr (Some c), s1)))"

definition denied_record :: scraped where
  "denied_record =
     \<lparr>title = Some ''No Title'', description = None, meta_keywords = None,
      content = ''Access denied by robots.txt'', links = []\<rparr>"

definition failed_record :: "string \<Rightarrow> scraped" where
  "failed_record url =
     \<lparr>title = Some ''No Title'', description = None, meta_keywords = None,
      content = ''Failed to fetch '' @ url, links = []\<rparr>"

text \<open>Lines 146-147: the fetch path chosen by the configuration.\<close>

definition fetch_html ::
  "config \<Rightarrow> world \<Rightarrow> string \<Rightarrow> state \<Rightarrow> (py_error + string option) \<times> state" where
  "fetch_html cfg w url s =
     (if enable_js cfg then fetch_js_page cfg w url s
      else (Inr (fst (fetch_page cfg w url s)), snd (fetch_page cfg w url s)))"

text \<open>Lines 148-151: what \<open>scrape_page\<close> does with the outcome of the fetch.\<close>

definition after_fetch ::
  "config \<Rightarrow> world \<Rightarrow> string \<Rightarrow> (py_error + string option) \<times> state
     \<Rightarrow> (py_error + scraped) \<times> state" where
  "after_fetch cfg w url f =
     (case fst f of
        Inl e \<Rightarrow> (Inl e, snd f)
      | Inr html \<Rightarrow>
          (if html = None \<or> html = Some [] then (Inr (failed_record url), snd f)
           else (extract_content cfg (html_parser w) (urljoin w) (the html) url, snd f)))"

definition scrape_page ::
  "config \<Rightarrow> world \<Rightarrow> string \<Rightarrow> state \<Rightarrow> (py_error + scraped) \<times> state" where
  "scrape_page cfg w url s =
     (let p = can_fetch cfg w url s
      in if \<not> fst p then (Inr denied_record, snd p)
         else after_fetch cfg w url (fetch_html cfg w url (snd p)))"



section \<open>SearchAndScrape: the combined pipeline\<close>

record combined =
  combined_title :: string
  combined_snippet :: string
  combined_link :: string
  scraped_content :: string
  word_count :: nat
  source :: string
  scraped_links :: "string list"

text \<open>
  The cache is a \<open>diskcache.Cache\<close>, an object of a library, which the program uses
  as a dictionary: \<open>query in cache\<close>, \<open>cache[query]\<close> and \<open>cache[query] = results\<close>.
  It is modelled as a map from queries to result sequences: \<open>cache_get\<close> is the lookup
  of lines 41-45, guarded by the membership test, with \<open>None\<close> for a query that is not
  in the cache; \<open>cache_put\<close> is the assignment of line 110. The library is taken to
  give back the value it was given.
\<close>

type_synonym cache = "string \<rightharpoonup> combined list"

definition cache_get :: "cache \<Rightarrow> string \<Rightarrow> combined list option" where
  "cache_get c query = (if query \<in> dom c then c query else None)"

definition cache_put :: "cache \<Rightarrow> string \<Rightarrow> combined list \<Rightarrow> cache" where
  "cache_put c query results = c(query \<mapsto> results)"

text \<open>Lines 73-79: the scrape loop, with the \<open>except Exception\<close> branch.\<close>

fun scrape_urls ::
  "world \<Rightarrow> string list \<Rightarrow> (string \<rightharpoonup> scraped) \<Rightarrow> state \<Rightarrow> (string \<rightharpoonup> scraped) \<times> state" where
  "scrape_urls w [] scraped_data s = (scraped_data, s)"
| "scrape_urls w (url # urls) scraped_data s =
     (let r = scrape_page default_config w url s
      in case fst r of
           Inr page \<Rightarrow> scrape_urls w urls (scraped_data(url \<mapsto> page)) (snd r)
         | Inl e \<Rightarrow> scrape_urls w urls scraped_data (emit (Log ConsolePrint url) (snd r)))"

definition is_restricted :: "scraped option \<Rightarrow> bool" where
  "is_restricted sc =
     py_in ''Access denied by robots.txt'' (case sc of None \<Rightarrow> [] | Some p \<Rightarrow> content p)"

definition combined_record :: "world \<Rightarrow> search_result \<Rightarrow> scraped option \<Rightarrow> combined" where
  "combined_record w result sc =
     (let url = link result;
          text = (case sc of None \<Rightarrow> ''No content scraped.'' | Some p \<Rightarrow> content p);
          wc = (if text \<noteq> ''No content scraped.'' then length (py_split text) else 0);
          ls = list_set (case sc of None \<Rightarrow> [] | Some p \<Rightarrow> links p)
      in \<lparr>combined_title = result_title result,
          combined_snippet = snippet result,
          combined_link = url,
          scraped_content = text,
          word_count = (if is_restricted sc then 0 else wc),
          source = netloc w url,
          scraped_links = ls\<rparr>)"

text \<open>Lines 81-108: one combined record per search result that is not skipped.\<close>

fun combine ::
  "world \<Rightarrow> bool \<Rightarrow> (string \<rightharpoonup> scraped) \<Rightarrow> search_result list \<Rightarrow> state
     \<Rightarrow> combined list \<times> state" where
  "combine w skip_restricted scraped_data [] s = ([], s)"
| "combine w skip_restricted scraped_data (result # rest) s =
     (let sc = scraped_data (link result)
      in if skip_restricted \<and> is_restricted sc
         then combine w skip_restricted scraped_data rest (emit (Log ConsolePrint (link result)) s)
         else
           (let r = combine w skip_restricted scraped_data rest s
            in (combined_record w result sc # fst r, snd r)))"

definition search_and_scrape ::
  "world \<Rightarrow> string \<Rightarrow> bool \<Rightarrow> search_opts \<Rightarrow> cache \<Rightarrow> state
     \<Rightarrow> combined list \<times> cache \<times> state" where
  "search_and_scrape w query skip_restricted opts c s =
     (case cache_get c query of
        Some cached \<Rightarrow> (cached, c, emit (Log ConsolePrint query) s)
      | None \<Rightarrow>
          (let s1 = emit (SearchCall query) (emit (Log ConsolePrint query) s);
               search_results = search w query opts (clock s1)
           in if search_results = [] then ([], c, emit (Log ConsolePrint query) s1)
              else
                (let urls = map link search_results;
                     sc = scrape_urls w urls Map.empty s1;
                     cr = combine w skip_restricted (fst sc) search_results (snd sc)
                 in (fst cr, cache_put c query (fst cr), snd cr))))"

section \<open>Reading the trace\<close>

text \<open>The events a call has added to the trace.\<close>

definition new_events :: "state \<Rightarrow> state \<Rightarrow> event list" where
  "new_events s s' = drop (length (trace s)) (trace s')"

text \<open>
  The steps of \<open>fetch_page\<close> in a trace, without the times: the rate limiter recording
  a request to a domain, the HTTP request, the backoff sleep.
\<close>

datatype step = StepRateLimit string | StepGet string | StepBackoff real

fun steps :: "event list \<Rightarrow> step list" where
  "steps [] = []"
| "steps (RateStamp d t # es) = StepRateLimit d # steps es"
| "steps (HttpGet u t # es) = StepGet u # steps es"
| "steps (Sleep Backoff d # es) = StepBackoff d # steps es"
| "steps (e # es) = steps es"

fun is_http_get :: "event \<Rightarrow> bool" where
  "is_http_get (HttpGet u t) = True"
| "is_http_get e = False"

fun backoff_delays :: "event list \<Rightarrow> real list" where
  "backoff_delays [] = []"
| "backoff_delays (Sleep Backoff d # es) = d # backoff_delays es"
| "backoff_delays (e # es) = backoff_delays es"

text \<open>The URLs whose robots.txt was consulted, in order.\<close>

fun robots_reads :: "event list \<Rightarrow> string list" where
  "robots_reads [] = []"
| "robots_reads (RobotsRead u # es) = u # robots_reads es"
| "robots_reads (e # es) = robots_reads es"

text \<open>A request leaves the machine: an HTTP GET or a page load of the browser.\<close>

fun is_fetch_event :: "event \<Rightarrow> bool" where
  "is_fetch_event (HttpGet u t) = True"
| "is_fetch_event (JsGoto u t) = True"
| "is_fetch_event e = False"

text \<open>The times at which HTTP requests to a domain were dispatched, oldest first.\<close>

fun get_times :: "world \<Rightarrow> string \<Rightarrow> event list \<Rightarrow> real list" where
  "get_times w d [] = []"
| "get_times w d (HttpGet u t # es) = (if netloc w u = d then t # get_times w d es else get_times w d es)"
| "get_times w d (e # es) = get_times w d es"




section \<open>Example inputs\<close>

text \<open>
  A small web for the examples. Each page is given by its markup and by the tree that
  \<open>html.parser\<close> builds from it; a URL that is not listed cannot be fetched. All links
  of the pages are relative to a base URL that ends in a slash, where \<open>urljoin\<close> is
  concatenation, and all URLs start with \<open>http://\<close>.
\<close>

definition anchors_html :: string where
  "anchors_html = ''<div><a href=a></a><a href=a></a><a href=a></a><a href=a></a><a href=a></a><a href=a></a><a href=a></a><a href=a></a><a href=a></a><a href=a></a><a href=b></a></div>''"

text \<open>Eleven anchors with two distinct targets; the second target comes last.\<close>

definition anchors_doc :: soup where
  "anchors_doc = [Tag ''div'' []
     [Tag ''a'' [(''href'', ''a'')] [], Tag ''a'' [(''href'', ''a'')] [],
      Tag ''a'' [(''href'', ''a'')] [], Tag ''a'' [(''href'', ''a'')] [],
      Tag ''a'' [(''href'', ''a'')] [], Tag ''a'' [(''href'', ''a'')] [],
      Tag ''a'' [(''href'', ''a'')] [], Tag ''a'' [(''href'', ''a'')] [],
      Tag ''a'' [(''href'', ''a'')] [], Tag ''a'' [(''href'', ''a'')] [],
      Tag ''a'' [(''href'', ''b'')] []]]"

definition links_html :: string where
  "links_html = ''<p>see <a href=x>x</a><a href=y></a><a href=x></a></p>''"

text \<open>Three anchors, two of them with the same target.\<close>

definition links_doc :: soup where
  "links_doc = [Tag ''p'' []
     [NavigableString ''see '', Tag ''a'' [(''href'', ''x'')] [NavigableString ''x''],
      Tag ''a'' [(''href'', ''y'')] [], Tag ''a'' [(''href'', ''x'')] []]]"

text \<open>A paragraph of 101 words in five sentences.\<close>

definition long_text :: string where
  "long_text = ''a. a. a. a. a a a a a a a a a a a a a a a a a a a a a a a a a a a a a a a a a a a a a a a a a a a a a a a a a a a a a a a a a a a a a a a a a a a a a a a a a a a a a a a a a a a a a a a a a a a a a a a a a''"

definition long_html :: string where
  "long_html = ''<p>'' @ long_text @ ''</p>''"

definition long_doc :: soup where
  "long_doc = [Tag ''p'' [] [NavigableString long_text]]"

text \<open>A page whose description tag has no \<open>content\<close> attribute.\<close>

definition bad_meta_html :: string where
  "bad_meta_html = ''<meta name=description><p>hello</p>''"

definition bad_meta_doc :: soup where
  "bad_meta_doc = [Tag ''meta'' [(''name'', ''description'')] [], Tag ''p'' [] [NavigableString ''hello'']]"

text \<open>A page that quotes the sentinel of the robots check in its own text.\<close>

definition quoting_html :: string where
  "quoting_html = ''<p>The server said: Access denied by robots.txt (sic)</p>''"

definition quoting_doc :: soup where
  "quoting_doc = [Tag ''p'' [] [NavigableString ''The server said: Access denied by robots.txt (sic)'']]"

definition example_parser :: "string \<Rightarrow> soup" where
  "example_parser html =
     (case map_of [(anchors_html, anchors_doc), (links_html, links_doc), (long_html, long_doc),
                   (bad_meta_html, bad_meta_doc), (quoting_html, quoting_doc)] html of
        Some doc \<Rightarrow> doc | None \<Rightarrow> [])"

text \<open>The pages of the web: \<open>d.org\<close> serves an empty body, \<open>down.org\<close> nothing at all.\<close>

definition example_pages :: "(string \<times> string) list" where
  "example_pages =
     [(''http://a.org/'', links_html), (''http://b.org/'', bad_meta_html),
      (''http://c.org/'', quoting_html), (''http://d.org/'', []),
      (''http://e.com/'', anchors_html), (''http://f.org/long'', long_html),
      (''http://deny.org/'', links_html), (''http://norobots.org/'', links_html),
      (''http://busy.org/'', links_html), (''http://gone.org/'', links_html)]"

text \<open>
  \<open>deny.org\<close> disallows everything; the robots.txt of \<open>norobots.org\<close> cannot be reached;
  \<open>busy.org\<close> answers the request for it with status 503, \<open>gone.org\<close> with status 404.
\<close>

definition example_robots :: "(string \<times> robots_response) list" where
  "example_robots =
     [(''deny.org'', Parsed False), (''norobots.org'', TransportError), (''busy.org'', HttpError 503),
      (''gone.org'', HttpError 404)]"

definition example_netloc :: "string \<Rightarrow> string" where
  "example_netloc url = takeWhile (\<lambda>c. c \<noteq> CHR ''/'') (drop 7 url)"

text \<open>The web, with a search engine that answers every query with \<open>rs\<close>.\<close>

definition mini_web :: "search_result list \<Rightarrow> world" where
  "mini_web rs =
     \<lparr>html_parser = example_parser,
      urljoin = (\<lambda>base href. base @ href),
      netloc = example_netloc,
      robots = (\<lambda>ua url t.
         (robot_file_parser
            (case map_of example_robots (example_netloc url) of
               Some r \<Rightarrow> r | None \<Rightarrow> Parsed True), 0)),
      http_get = (\<lambda>ua tmo url t.
         ((case map_of example_pages url of
             Some html \<Rightarrow> Response html | None \<Rightarrow> RequestException), 0)),
      js_page = (\<lambda>ua tmo url t. (RenderRaises, 0)),
      search = (\<lambda>query opts t. rs)\<rparr>"



definition no_opts :: search_opts where
  "no_opts = \<lparr>time_range = None, include_keywords = None, exclude_keywords = None\<rparr>"

definition result_a :: search_result where
  "result_a = \<lparr>result_title = ''A'', link = ''http://a.org/'', snippet = ''about a''\<rparr>"


definition result_c :: search_result where
  "result_c = \<lparr>result_title = ''C'', link = ''http://c.org/'', snippet = ''about c''\<rparr>"

definition result_deny :: search_result where
  "result_deny = \<lparr>result_title = ''D'', link = ''http://deny.org/'', snippet = ''about d''\<rparr>"

section \<open>Content extraction\<close>

lemma extract_links:
  "extract_content cfg hp uj html url = Inr p \<Longrightarrow>
   links p = list_set (take 10 (resolved_links uj url (decompose_all boilerplate (hp html))))"
  by (auto simp: extract_content_def Let_def split: sum.splits)

lemma extract_content_field:
  "extract_content cfg hp uj html url = Inr p \<Longrightarrow>
   content p =
     (let t = paragraph_text (decompose_all boilerplate (hp html));
          c = (if summarize_content cfg \<and> length (py_split t) > 100 then summarize_text t else t)
      in if c = [] then ''No main content found.'' else c)"
  by (auto simp: extract_content_def Let_def split: sum.splits)

lemma paragraph_text_length: "length (paragraph_text sp) \<le> 2400"
  by (simp add: paragraph_text_def)

text \<open>
  C1 (as amended). \<open>extract_content\<close> resolves the \<open>href\<close> of every anchor that is left
  after the boilerplate elements are removed, keeps the first 10 resolved links in
  document order and only then removes duplicates. So \<open>links\<close> holds at most 10
  pairwise distinct URLs, all among the first 10 resolved links, and it holds every
  resolved link whenever the document has at most 10 such anchors.
\<close>

theorem extract_links_capped:
  assumes "extract_content cfg hp uj html url = Inr p"
  shows "set (links p) = set (take 10 (resolved_links uj url (decompose_all boilerplate (hp html))))
       \<and> distinct (links p) \<and> length (links p) \<le> 10
       \<and> (length (resolved_links uj url (decompose_all boilerplate (hp html))) \<le> 10 \<longrightarrow>
            set (links p) = set (resolved_links uj url (decompose_all boilerplate (hp html))))"
proof -
  let ?r = "resolved_links uj url (decompose_all boilerplate (hp html))"
  have l: "links p = remdups (take 10 ?r)"
    using extract_links[OF assms] by (simp add: list_set_def)
  have "length (remdups (take 10 ?r)) \<le> length (take 10 ?r)"
    by (rule length_remdups_leq)
  then have "length (links p) \<le> 10" using l by simp
  then show ?thesis using l by simp
qed

text \<open>The theorem at a page with three anchors, two of them equal.\<close>

theorem extract_links_capped_witness:
  "extract_content default_config (html_parser (mini_web [])) (urljoin (mini_web []))
      links_html ''http://a.org/'' =
     Inr \<lparr>title = Some ''No Title'', description = Some ''No Description'',
          meta_keywords = Some ''No Keywords'', content = ''see x'',
          links = [''http://a.org/y'', ''http://a.org/x'']\<rparr>
   \<and> length (resolved_links (urljoin (mini_web [])) ''http://a.org/''
        (decompose_all boilerplate (html_parser (mini_web []) links_html))) \<le> 10
   \<and> set [''http://a.org/y'', ''http://a.org/x''] =
       set (resolved_links (urljoin (mini_web [])) ''http://a.org/''
        (decompose_all boilerplate (html_parser (mini_web []) links_html)))"
proof -
  have h: "extract_content default_config (html_parser (mini_web []))
      (urljoin (mini_web [])) links_html ''http://a.org/'' =
     Inr \<lparr>title = Some ''No Title'', description = Some ''No Description'',
          meta_keywords = Some ''No Keywords'', content = ''see x'',
          links = [''http://a.org/y'', ''http://a.org/x'']\<rparr>"
    by code_simp
  have n: "length (resolved_links (urljoin (mini_web [])) ''http://a.org/''
        (decompose_all boilerplate (html_parser (mini_web []) links_html))) \<le> 10"
    by code_simp
  show ?thesis using h n extract_links_capped[OF h] by simp
qed

text \<open>
  C1 as stated fails: the cut to 10 entries comes before the removal of duplicates.
  A page with ten anchors to \<open>a\<close> followed by one to \<open>b\<close> has two distinct resolved
  links, and \<open>links\<close> holds only the first.
\<close>

theorem extract_links_counterexample:
  "length (remdups (resolved_links (urljoin (mini_web [])) ''http://e.com/''
      (decompose_all boilerplate (html_parser (mini_web []) anchors_html)))) \<le> 10
   \<and> ''http://e.com/b'' \<in> set (resolved_links (urljoin (mini_web [])) ''http://e.com/''
      (decompose_all boilerplate (html_parser (mini_web []) anchors_html)))
   \<and> extract_content default_config (html_parser (mini_web []))
        (urljoin (mini_web [])) anchors_html ''http://e.com/'' =
      Inr \<lparr>title = Some ''No Title'', description = Some ''No Description'',
           meta_keywords = Some ''No Keywords'', content = ''No main content found.'',
           links = [''http://e.com/a'']\<rparr>"
  by code_simp

text \<open>
  C7. For a non-empty paragraph text \<open>t\<close> (joined, cut to 2400 characters): with
  summarization enabled, more than 100 words and more than 3 pieces of the split at
  \<open>". "\<close>, the content is the first 3 pieces joined by \<open>". "\<close> and followed by \<open>"..."\<close>;
  otherwise (3 or fewer sentences, at most 100 words, or summarization disabled) the
  content is \<open>t\<close> itself. An empty \<open>t\<close> is replaced by \<open>"No main content found."\<close>.
\<close>

theorem summarize_behaviour:
  assumes "extract_content cfg hp uj html url = Inr p"
    and "t = paragraph_text (decompose_all boilerplate (hp html))"
    and "t \<noteq> []"
  shows "length t \<le> 2400
       \<and> content p =
           (if summarize_content cfg \<and> 100 < length (py_split t) \<and> 3 < length (py_split_on ''. '' t)
            then py_join ''. '' (take 3 (py_split_on ''. '' t)) @ ''...'' else t)"
  using assms extract_content_field[OF assms(1)]
  by (auto simp: Let_def summarize_text_def paragraph_text_length)

text \<open>The theorem at a paragraph of 101 words in five sentences.\<close>

theorem summarize_behaviour_witness:
  "extract_content default_config (html_parser (mini_web [])) (urljoin (mini_web []))
      long_html ''http://f.org/long'' =
     Inr \<lparr>title = Some ''No Title'', description = Some ''No Description'',
          meta_keywords = Some ''No Keywords'', content = ''a. a. a...'', links = []\<rparr>
   \<and> long_text = paragraph_text (decompose_all boilerplate (html_parser (mini_web []) long_html))
   \<and> long_text \<noteq> []
   \<and> summarize_content default_config
   \<and> 100 < length (py_split long_text)
   \<and> 3 < length (py_split_on ''. '' long_text)
   \<and> py_join ''. '' (take 3 (py_split_on ''. '' long_text)) @ ''...'' = ''a. a. a...''"
proof -
  let ?sp = "decompose_all boilerplate (html_parser (mini_web []) long_html)"
  have md: "extract_metadata ?sp =
      Inr \<lparr>md_title = Some ''No Title'', md_description = ''No Description'',
           md_keywords = ''No Keywords''\<rparr>"
    by code_simp
  have joined: "py_join '' '' (map (\<lambda>p. py_strip (get_text p)) (find_all ''p'' (main_content ?sp))) =
      long_text"
    by code_simp
  have len: "length long_text \<le> 2400" by (simp add: long_text_def)
  have t: "long_text = paragraph_text ?sp"
    unfolding paragraph_text_def joined using len by simp
  have n: "long_text \<noteq> []" by (simp add: long_text_def)
  have s: "summarize_content default_config" by (simp add: default_config_def)
  have w: "100 < length (py_split long_text)" by code_simp
  have c: "3 < length (py_split_on ''. '' long_text)" by code_simp
  have j: "py_join ''. '' (take 3 (py_split_on ''. '' long_text)) @ ''...'' = ''a. a. a...''"
    by code_simp
  have l: "resolved_links (urljoin (mini_web [])) ''http://f.org/long'' ?sp = []"
    by code_simp
  have h: "extract_content default_config (html_parser (mini_web []))
      (urljoin (mini_web [])) long_html ''http://f.org/long'' =
     Inr \<lparr>title = Some ''No Title'', description = Some ''No Description'',
          meta_keywords = Some ''No Keywords'', content = ''a. a. a...'', links = []\<rparr>"
    unfolding extract_content_def Let_def md l t[symmetric]
    using s w c j by (simp add: summarize_text_def list_set_def)
  show ?thesis using h t n s w c j summarize_behaviour[OF h t n] by simp
qed

section \<open>State updates\<close>

lemma emit_simps [simp]:
  "trace (emit e s) = trace s @ [e]"
  "clock (emit e s) = clock s"
  "last_request_time (emit e s) = last_request_time s"
  by (simp_all add: emit_def)

lemma advance_simps [simp]:
  "trace (advance x s) = trace s"
  "clock (advance x s) = clock s + x"
  "last_request_time (advance x s) = last_request_time s"
  by (simp_all add: advance_def)

lemma sleep_simps [simp]:
  "trace (sleep site x s) = trace s @ [Sleep site x]"
  "clock (sleep site x s) = clock s + x"
  "last_request_time (sleep site x s) = last_request_time s"
  by (simp_all add: sleep_def)

lemma new_events_append [simp]: "trace s' = trace s @ es \<Longrightarrow> new_events s s' = es"
  by (simp add: new_events_def)

lemma steps_append [simp]: "steps (xs @ ys) = steps xs @ steps ys"
  by (induction xs rule: steps.induct) simp_all

lemma backoff_delays_append [simp]: "backoff_delays (xs @ ys) = backoff_delays xs @ backoff_delays ys"
  by (induction xs rule: backoff_delays.induct) simp_all

lemma get_times_append [simp]: "get_times w d (xs @ ys) = get_times w d xs @ get_times w d ys"
  by (induction w d xs rule: get_times.induct) simp_all


section \<open>The rate limiter\<close>



lemma respect_rate_limit_trace:
  "\<exists>es. trace (respect_rate_limit cfg w url s) =
          trace s @ es @ [RateStamp (netloc w url) (clock (respect_rate_limit cfg w url s))]
        \<and> (es = [] \<or> (\<exists>x. es = [Sleep RateLimit x]))"
  by (auto simp: respect_rate_limit_def Let_def split: option.splits)

lemma respect_rate_limit_steps:
  "\<exists>es. trace (respect_rate_limit cfg w url s) = trace s @ es
        \<and> steps es = [StepRateLimit (netloc w url)] \<and> backoff_delays es = []
        \<and> filter is_http_get es = [] \<and> get_times w d es = []"
  using respect_rate_limit_trace[of cfg w url s] by auto

section \<open>Retries\<close>





section \<open>Separation of requests\<close>









lemma fetch_attempts_steps:
  "\<exists>es m. trace (snd (fetch_attempts cfg w url ks s)) = trace s @ es \<and> m \<le> length ks
      \<and> steps es =
          concat (map (\<lambda>k. [StepRateLimit (netloc w url), StepGet url, StepBackoff (2 ^ k)]) (take m ks))
          @ (if fst (fetch_attempts cfg w url ks s) = None then []
             else [StepRateLimit (netloc w url), StepGet url])"
proof (induction ks arbitrary: s)
  case Nil
  show ?case by simp
next
  case (Cons k ks)
  let ?f = "\<lambda>k. [StepRateLimit (netloc w url), StepGet url, StepBackoff (2 ^ k)]"
  let ?s1 = "respect_rate_limit cfg w url s"
  let ?r = "http_get w (user_agent cfg) (timeout cfg) url (clock ?s1)"
  let ?s2 = "advance (snd ?r) (emit (HttpGet url (clock ?s1)) ?s1)"
  obtain es1 where es1: "trace ?s1 = trace s @ es1" "steps es1 = [StepRateLimit (netloc w url)]"
    using respect_rate_limit_steps[of cfg w url s] by blast
  show ?case
  proof (cases "fst ?r")
    case RequestException
    let ?s3 = "sleep Backoff (2 ^ k) (emit (Log LogWarning url) ?s2)"
    have eq: "fetch_attempts cfg w url (k # ks) s = fetch_attempts cfg w url ks ?s3"
      using RequestException by (simp add: Let_def)
    obtain es m where es: "trace (snd (fetch_attempts cfg w url ks ?s3)) = trace ?s3 @ es"
        "m \<le> length ks"
        "steps es = concat (map ?f (take m ks))
          @ (if fst (fetch_attempts cfg w url ks ?s3) = None then []
             else [StepRateLimit (netloc w url), StepGet url])"
      using Cons.IH[of ?s3] by blast
    let ?all = "es1 @ [HttpGet url (clock ?s1), Log LogWarning url, Sleep Backoff (2 ^ k)] @ es"
    have "trace (snd (fetch_attempts cfg w url (k # ks) s)) = trace s @ ?all"
      using eq es(1) es1(1) by simp
    moreover have "Suc m \<le> length (k # ks)" using es(2) by simp
    moreover have "steps ?all = concat (map ?f (take (Suc m) (k # ks)))
          @ (if fst (fetch_attempts cfg w url (k # ks) s) = None then []
             else [StepRateLimit (netloc w url), StepGet url])"
      using es1(2) es(3) eq by simp
    ultimately show ?thesis by blast
  next
    case (Response body)
    have eq: "fetch_attempts cfg w url (k # ks) s = (Some body, ?s2)"
      using Response by (simp add: Let_def)
    let ?all = "es1 @ [HttpGet url (clock ?s1)]"
    have "trace (snd (fetch_attempts cfg w url (k # ks) s)) = trace s @ ?all"
      using eq es1(1) by simp
    moreover have "steps ?all = concat (map ?f (take 0 (k # ks)))
          @ (if fst (fetch_attempts cfg w url (k # ks) s) = None then []
             else [StepRateLimit (netloc w url), StepGet url])"
      using es1(2) eq by simp
    ultimately show ?thesis by blast
  qed
qed






section \<open>Scraping one page\<close>

lemma can_fetch_trace:
  "\<exists>es. trace (snd (can_fetch cfg w url s)) = trace s @ es \<and> filter is_fetch_event es = []"
  by (auto simp: can_fetch_def Let_def split: robots_outcome.splits)

lemma fetch_attempts_trace:
  "\<exists>es. trace (snd (fetch_attempts cfg w url ks s)) = trace s @ es"
  using fetch_attempts_steps[of cfg w url ks s] by blast

lemma fetch_page_attempted:
  assumes "0 < max_retries cfg"
  shows "\<exists>es t. trace (snd (fetch_page cfg w url s)) = trace s @ es \<and> HttpGet url t \<in> set es"
proof -
  obtain n where n: "nat (max_retries cfg) = Suc n"
    using assms by (cases "nat (max_retries cfg)") auto
  let ?ks = "map Suc [0..<n]"
  have ks: "[0..<nat (max_retries cfg)] = 0 # ?ks"
    unfolding n by (simp add: upt_conv_Cons map_Suc_upt del: upt_Suc)
  let ?s1 = "respect_rate_limit cfg w url s"
  let ?r = "http_get w (user_agent cfg) (timeout cfg) url (clock ?s1)"
  let ?s2 = "advance (snd ?r) (emit (HttpGet url (clock ?s1)) ?s1)"
  obtain es1 where es1: "trace ?s1 = trace s @ es1"
    using respect_rate_limit_steps[of cfg w url s] by blast
  show ?thesis
  proof (cases "fst ?r")
    case RequestException
    let ?s3 = "sleep Backoff (2 ^ 0) (emit (Log LogWarning url) ?s2)"
    obtain es where es: "trace (snd (fetch_attempts cfg w url ?ks ?s3)) = trace ?s3 @ es"
      using fetch_attempts_trace by blast
    have "fetch_page cfg w url s = fetch_attempts cfg w url ?ks ?s3"
      unfolding fetch_page_def ks using RequestException by (simp add: Let_def)
    then have "trace (snd (fetch_page cfg w url s)) =
        trace s @ (es1 @ [HttpGet url (clock ?s1), Log LogWarning url, Sleep Backoff (2 ^ 0)] @ es)"
      using es es1 by simp
    then show ?thesis by (intro exI[of _ "es1 @ [HttpGet url (clock ?s1), Log LogWarning url, Sleep Backoff (2 ^ 0)] @ es"] exI[of _ "clock ?s1"]) simp
  next
    case (Response body)
    have "fetch_page cfg w url s = (Some body, ?s2)"
      unfolding fetch_page_def ks using Response by (simp add: Let_def)
    then have "trace (snd (fetch_page cfg w url s)) = trace s @ (es1 @ [HttpGet url (clock ?s1)])"
      using es1 by simp
    then show ?thesis by (intro exI[of _ "es1 @ [HttpGet url (clock ?s1)]"] exI[of _ "clock ?s1"]) simp
  qed
qed

lemma fetch_html_attempted:
  assumes "enable_js cfg \<or> 0 < max_retries cfg"
  shows "\<exists>es e. trace (snd (fetch_html cfg w url s)) = trace s @ es \<and> e \<in> set es \<and> is_fetch_event e"
proof (cases "enable_js cfg")
  case True
  then show ?thesis
    by (auto simp: fetch_html_def fetch_js_page_def Let_def split: js_outcome.splits)
next
  case False
  then obtain es t where "trace (snd (fetch_page cfg w url s)) = trace s @ es" "HttpGet url t \<in> set es"
    using assms fetch_page_attempted by blast
  then show ?thesis using False
    by (intro exI[of _ es] exI[of _ "HttpGet url t"]) (simp add: fetch_html_def)
qed

lemma after_fetch_state [simp]: "snd (after_fetch cfg w url f) = snd f"
  by (simp add: after_fetch_def split: sum.splits)

lemma scrape_page_allowed:
  "fst (can_fetch cfg w url s) \<Longrightarrow>
   scrape_page cfg w url s = after_fetch cfg w url (fetch_html cfg w url (snd (can_fetch cfg w url s)))"
  by (simp add: scrape_page_def Let_def)

lemma scrape_page_denied:
  "\<not> fst (can_fetch cfg w url s) \<Longrightarrow>
   scrape_page cfg w url s = (Inr denied_record, snd (can_fetch cfg w url s))"
  by (simp add: scrape_page_def Let_def)

lemma robots_raises_fails_open:
  assumes "fst (robots w (user_agent cfg) url (clock s)) = RobotsRaises"
  shows "fst (can_fetch cfg w url s) = True
       \<and> Log LogWarning url \<in> set (new_events s (snd (can_fetch cfg w url s)))
       \<and> scrape_page cfg w url s =
           after_fetch cfg w url (fetch_html cfg w url (snd (can_fetch cfg w url s)))
       \<and> (enable_js cfg \<or> 0 < max_retries cfg \<longrightarrow>
            (\<exists>e. e \<in> set (new_events s (snd (scrape_page cfg w url s))) \<and> is_fetch_event e))"
proof -
  have ok: "fst (can_fetch cfg w url s)"
    using assms by (simp add: can_fetch_def Let_def)
  have lg: "Log LogWarning url \<in> set (new_events s (snd (can_fetch cfg w url s)))"
    using assms by (simp add: can_fetch_def Let_def new_events_def)
  have sp: "scrape_page cfg w url s =
      after_fetch cfg w url (fetch_html cfg w url (snd (can_fetch cfg w url s)))"
    using ok by (rule scrape_page_allowed)
  have ev: "\<exists>e. e \<in> set (new_events s (snd (scrape_page cfg w url s))) \<and> is_fetch_event e"
    if js: "enable_js cfg \<or> 0 < max_retries cfg"
  proof -
    obtain es1 where es1: "trace (snd (can_fetch cfg w url s)) = trace s @ es1"
      using can_fetch_trace by blast
    obtain es e where es: "trace (snd (fetch_html cfg w url (snd (can_fetch cfg w url s)))) =
        trace (snd (can_fetch cfg w url s)) @ es" "e \<in> set es" "is_fetch_event e"
      using fetch_html_attempted[OF js] by blast
    have "trace (snd (scrape_page cfg w url s)) = trace s @ (es1 @ es)"
      using sp es(1) es1 by simp
    then have "new_events s (snd (scrape_page cfg w url s)) = es1 @ es" by simp
    then show ?thesis using es(2,3) by auto
  qed
  show ?thesis using ok lg sp ev by blast
qed

lemma robots_answer_decides:
  assumes "fst (robots w (user_agent cfg) url (clock s)) = RobotsAnswer b"
  shows "fst (can_fetch cfg w url s) = b"
    and "Log LogWarning url \<notin> set (new_events s (snd (can_fetch cfg w url s)))"
  using assms by (simp_all add: can_fetch_def Let_def new_events_def)

lemma scrape_page_denied_no_fetch:
  assumes "\<not> fst (can_fetch cfg w url s)"
  shows "filter is_fetch_event (new_events s (snd (scrape_page cfg w url s))) = []"
proof -
  obtain es where es: "trace (snd (can_fetch cfg w url s)) = trace s @ es" "filter is_fetch_event es = []"
    using can_fetch_trace by blast
  have "new_events s (snd (scrape_page cfg w url s)) = es"
    using es(1) by (simp add: scrape_page_denied[OF assms])
  then show ?thesis using es(2) by simp
qed

text \<open>
  C5 (as amended). Let the retrieval of robots.txt end in \<open>resp\<close> and the library make
  of it what \<open>robot_file_parser\<close> says. When the retrieval fails with an exception (a
  transport error, a body that cannot be decoded), \<open>can_fetch\<close> logs a warning and
  returns \<open>True\<close>, and \<open>scrape_page\<close> goes on to the fetch: its result is what the fetch
  and the extraction give, and, whenever the configuration allows at least one attempt,
  a request is sent. When the retrieval fails with an HTTP error status, nothing is
  raised and nothing is logged: for a status from 400 to 499 other than 401 and 403
  \<open>can_fetch\<close> returns \<open>True\<close> and \<open>scrape_page\<close> goes on to the fetch; for 401, 403 and
  every other status \<open>can_fetch\<close> returns \<open>False\<close> and \<open>scrape_page\<close> returns the
  access-denied record without sending a request.
\<close>

theorem robots_failure_fails_open:
  assumes "fst (robots w (user_agent cfg) url (clock s)) = robot_file_parser resp"
  shows "(resp = TransportError \<or> resp = Undecodable \<longrightarrow>
            fst (can_fetch cfg w url s) = True
          \<and> Log LogWarning url \<in> set (new_events s (snd (can_fetch cfg w url s)))
          \<and> scrape_page cfg w url s =
              after_fetch cfg w url (fetch_html cfg w url (snd (can_fetch cfg w url s)))
          \<and> (enable_js cfg \<or> 0 < max_retries cfg \<longrightarrow>
               (\<exists>e. e \<in> set (new_events s (snd (scrape_page cfg w url s))) \<and> is_fetch_event e)))
       \<and> (resp = HttpError code \<and> 400 \<le> code \<and> code < 500 \<and> code \<noteq> 401 \<and> code \<noteq> 403 \<longrightarrow>
            fst (can_fetch cfg w url s) = True
          \<and> Log LogWarning url \<notin> set (new_events s (snd (can_fetch cfg w url s)))
          \<and> scrape_page cfg w url s =
              after_fetch cfg w url (fetch_html cfg w url (snd (can_fetch cfg w url s))))
       \<and> (resp = HttpError code \<and> (code = 401 \<or> code = 403 \<or> code < 400 \<or> 500 \<le> code) \<longrightarrow>
            fst (can_fetch cfg w url s) = False
          \<and> Log LogWarning url \<notin> set (new_events s (snd (can_fetch cfg w url s)))
          \<and> scrape_page cfg w url s =
              (Inr \<lparr>title = Some ''No Title'', description = None, meta_keywords = None,
                    content = ''Access denied by robots.txt'', links = []\<rparr>,
               snd (can_fetch cfg w url s))
          \<and> filter is_fetch_event (new_events s (snd (scrape_page cfg w url s))) = [])"
proof -
  have raises: "fst (robots w (user_agent cfg) url (clock s)) = RobotsRaises"
    if "resp = TransportError \<or> resp = Undecodable"
    using assms that by (auto simp: robot_file_parser_def)
  have allow: "fst (robots w (user_agent cfg) url (clock s)) = RobotsAnswer True"
    if "resp = HttpError code" "400 \<le> code" "code < 500" "code \<noteq> 401" "code \<noteq> 403"
    using assms that by (simp add: robot_file_parser_def)
  have deny: "fst (robots w (user_agent cfg) url (clock s)) = RobotsAnswer False"
    if "resp = HttpError code" "code = 401 \<or> code = 403 \<or> code < 400 \<or> 500 \<le> code"
    using assms that by (auto simp: robot_file_parser_def)
  have a: "fst (can_fetch cfg w url s) = True
        \<and> Log LogWarning url \<in> set (new_events s (snd (can_fetch cfg w url s)))
        \<and> scrape_page cfg w url s =
            after_fetch cfg w url (fetch_html cfg w url (snd (can_fetch cfg w url s)))
        \<and> (enable_js cfg \<or> 0 < max_retries cfg \<longrightarrow>
             (\<exists>e. e \<in> set (new_events s (snd (scrape_page cfg w url s))) \<and> is_fetch_event e))"
    if r: "resp = TransportError \<or> resp = Undecodable"
    using robots_raises_fails_open[OF raises[OF r]] .
  have b: "fst (can_fetch cfg w url s) = True
        \<and> Log LogWarning url \<notin> set (new_events s (snd (can_fetch cfg w url s)))
        \<and> scrape_page cfg w url s =
            after_fetch cfg w url (fetch_html cfg w url (snd (can_fetch cfg w url s)))"
    if r: "resp = HttpError code \<and> 400 \<le> code \<and> code < 500 \<and> code \<noteq> 401 \<and> code \<noteq> 403"
  proof -
    have ans: "fst (robots w (user_agent cfg) url (clock s)) = RobotsAnswer True"
      using r allow by blast
    have ok: "fst (can_fetch cfg w url s)"
      using robots_answer_decides(1)[OF ans] by simp
    show ?thesis
      using ok robots_answer_decides(2)[OF ans] scrape_page_allowed[OF ok] by simp
  qed
  have c: "fst (can_fetch cfg w url s) = False
        \<and> Log LogWarning url \<notin> set (new_events s (snd (can_fetch cfg w url s)))
        \<and> scrape_page cfg w url s =
            (Inr \<lparr>title = Some ''No Title'', description = None, meta_keywords = None,
                  content = ''Access denied by robots.txt'', links = []\<rparr>,
             snd (can_fetch cfg w url s))
        \<and> filter is_fetch_event (new_events s (snd (scrape_page cfg w url s))) = []"
    if r: "resp = HttpError code \<and> (code = 401 \<or> code = 403 \<or> code < 400 \<or> 500 \<le> code)"
  proof -
    have ans: "fst (robots w (user_agent cfg) url (clock s)) = RobotsAnswer False"
      using r deny by blast
    have no: "\<not> fst (can_fetch cfg w url s)"
      using robots_answer_decides(1)[OF ans] by simp
    have sp: "scrape_page cfg w url s =
            (Inr \<lparr>title = Some ''No Title'', description = None, meta_keywords = None,
                  content = ''Access denied by robots.txt'', links = []\<rparr>,
             snd (can_fetch cfg w url s))"
      using scrape_page_denied[OF no] by (simp add: denied_record_def)
    show ?thesis
      using no robots_answer_decides(2)[OF ans] sp scrape_page_denied_no_fetch[OF no] by simp
  qed
  show ?thesis using a b c by blast
qed

text \<open>
  The theorem at a site whose robots.txt cannot be reached, at one that answers the
  request for it with status 404 and at one that answers it with status 503.
\<close>

theorem robots_failure_fails_open_witness:
  "fst (robots (mini_web []) (user_agent default_config) ''http://norobots.org/'' (clock (init_state 0)))
     = robot_file_parser TransportError
   \<and> (enable_js default_config \<or> 0 < max_retries default_config)
   \<and> fst (can_fetch default_config (mini_web []) ''http://norobots.org/'' (init_state 0)) = True
   \<and> (\<exists>e. e \<in> set (new_events (init_state 0)
             (snd (scrape_page default_config (mini_web []) ''http://norobots.org/'' (init_state 0))))
          \<and> is_fetch_event e)
   \<and> trace (snd (scrape_page default_config (mini_web []) ''http://norobots.org/'' (init_state 0))) =
       [RobotsRead ''http://norobots.org/'', Log LogWarning ''http://norobots.org/'', RateStamp ''norobots.org'' 0,
        HttpGet ''http://norobots.org/'' 0]
   \<and> fst (robots (mini_web []) (user_agent default_config) ''http://gone.org/'' (clock (init_state 0)))
     = robot_file_parser (HttpError 404)
   \<and> fst (can_fetch default_config (mini_web []) ''http://gone.org/'' (init_state 0)) = True
   \<and> trace (snd (scrape_page default_config (mini_web []) ''http://gone.org/'' (init_state 0))) =
       [RobotsRead ''http://gone.org/'', RateStamp ''gone.org'' 0, HttpGet ''http://gone.org/'' 0]
   \<and> fst (robots (mini_web []) (user_agent default_config) ''http://busy.org/'' (clock (init_state 0)))
     = robot_file_parser (HttpError 503)
   \<and> fst (can_fetch default_config (mini_web []) ''http://busy.org/'' (init_state 0)) = False
   \<and> filter is_fetch_event (new_events (init_state 0)
        (snd (scrape_page default_config (mini_web []) ''http://busy.org/'' (init_state 0)))) = []"
proof -
  have h1: "fst (robots (mini_web []) (user_agent default_config) ''http://norobots.org/''
      (clock (init_state 0))) = robot_file_parser TransportError"
    by (simp add: mini_web_def example_robots_def example_netloc_def)
  have h2: "fst (robots (mini_web []) (user_agent default_config) ''http://gone.org/''
      (clock (init_state 0))) = robot_file_parser (HttpError 404)"
    by (simp add: mini_web_def example_robots_def example_netloc_def)
  have h3: "fst (robots (mini_web []) (user_agent default_config) ''http://busy.org/''
      (clock (init_state 0))) = robot_file_parser (HttpError 503)"
    by (simp add: mini_web_def example_robots_def example_netloc_def)
  have m: "enable_js default_config \<or> 0 < max_retries default_config"
    by (simp add: default_config_def)
  have t1: "trace (snd (scrape_page default_config (mini_web []) ''http://norobots.org/'' (init_state 0))) =
       [RobotsRead ''http://norobots.org/'', Log LogWarning ''http://norobots.org/'', RateStamp ''norobots.org'' 0,
        HttpGet ''http://norobots.org/'' 0]"
    by code_simp
  have t2: "trace (snd (scrape_page default_config (mini_web []) ''http://gone.org/'' (init_state 0))) =
       [RobotsRead ''http://gone.org/'', RateStamp ''gone.org'' 0, HttpGet ''http://gone.org/'' 0]"
    by code_simp
  have c1: "fst (can_fetch default_config (mini_web []) ''http://norobots.org/'' (init_state 0)) = True"
    using robots_failure_fails_open[OF h1] by simp
  have e1: "\<exists>e. e \<in> set (new_events (init_state 0)
             (snd (scrape_page default_config (mini_web []) ''http://norobots.org/'' (init_state 0))))
          \<and> is_fetch_event e"
    using robots_failure_fails_open[OF h1] m by blast
  have c2: "fst (can_fetch default_config (mini_web []) ''http://gone.org/'' (init_state 0)) = True"
    using robots_failure_fails_open[OF h2, where code = 404] by simp
  have g3: "HttpError 503 = HttpError 503
      \<and> ((503::nat) = 401 \<or> (503::nat) = 403 \<or> (503::nat) < 400 \<or> 500 \<le> (503::nat))"
    by simp
  have c3: "fst (can_fetch default_config (mini_web []) ''http://busy.org/'' (init_state 0)) = False"
    using robots_failure_fails_open[OF h3, where code = 503] by simp
  have n3: "filter is_fetch_event (new_events (init_state 0)
        (snd (scrape_page default_config (mini_web []) ''http://busy.org/'' (init_state 0)))) = []"
    using robots_failure_fails_open[OF h3, where code = 503] g3 by blast
  show ?thesis by (intro conjI h1 m c1 e1 t1 h2 c2 t2 h3 c3 n3)
qed

text \<open>
  C5 as stated fails at a site that answers the request for robots.txt with status 503:
  the retrieval has failed, yet \<open>can_fetch\<close> returns \<open>False\<close> without a warning and
  \<open>scrape_page\<close> returns the access-denied record without sending a request.
\<close>

theorem robots_http_error_counterexample:
  "fst (robots (mini_web []) (user_agent default_config) ''http://busy.org/'' (clock (init_state 0)))
     = robot_file_parser (HttpError 503)
   \<and> \<not> fst (can_fetch default_config (mini_web []) ''http://busy.org/'' (init_state 0))
   \<and> fst (scrape_page default_config (mini_web []) ''http://busy.org/'' (init_state 0)) =
       Inr \<lparr>title = Some ''No Title'', description = None, meta_keywords = None,
            content = ''Access denied by robots.txt'', links = []\<rparr>
   \<and> trace (snd (scrape_page default_config (mini_web []) ''http://busy.org/'' (init_state 0))) =
       [RobotsRead ''http://busy.org/'']"
  by code_simp

text \<open>
  C6 (as amended). If the policy check fails, \<open>scrape_page\<close> returns the access-denied
  record and sends no request. If the fetch returns \<open>None\<close> or empty markup, it returns
  the failed-to-fetch record for the URL. If the fetch returns non-empty markup, it
  returns exactly what \<open>extract_content\<close> returns for that markup.
\<close>

theorem scrape_page_state_machine:
  "(\<not> fst (can_fetch cfg w url s) \<longrightarrow>
      scrape_page cfg w url s =
        (Inr \<lparr>title = Some ''No Title'', description = None, meta_keywords = None,
              content = ''Access denied by robots.txt'', links = []\<rparr>,
         snd (can_fetch cfg w url s))
      \<and> filter is_fetch_event (new_events s (snd (scrape_page cfg w url s))) = [])
   \<and> (fst (can_fetch cfg w url s)
        \<and> (fst (fetch_html cfg w url (snd (can_fetch cfg w url s))) = Inr None
           \<or> fst (fetch_html cfg w url (snd (can_fetch cfg w url s))) = Inr (Some [])) \<longrightarrow>
      fst (scrape_page cfg w url s) =
        Inr \<lparr>title = Some ''No Title'', description = None, meta_keywords = None,
             content = ''Failed to fetch '' @ url, links = []\<rparr>)
   \<and> (fst (can_fetch cfg w url s)
        \<and> fst (fetch_html cfg w url (snd (can_fetch cfg w url s))) = Inr (Some html) \<and> html \<noteq> [] \<longrightarrow>
      fst (scrape_page cfg w url s) = extract_content cfg (html_parser w) (urljoin w) html url)"
proof -
  have a: "filter is_fetch_event (new_events s (snd (scrape_page cfg w url s))) = []"
    if d: "\<not> fst (can_fetch cfg w url s)"
  proof -
    obtain es where es: "trace (snd (can_fetch cfg w url s)) = trace s @ es" "filter is_fetch_event es = []"
      using can_fetch_trace by blast
    have "new_events s (snd (scrape_page cfg w url s)) = es"
      using es(1) by (simp add: scrape_page_denied[OF d])
    then show ?thesis using es(2) by simp
  qed
  show ?thesis
    using a by (auto simp: scrape_page_denied scrape_page_allowed after_fetch_def
        denied_record_def failed_record_def)
qed

text \<open>
  C6 as stated fails at a page whose body is empty: the fetch succeeds with the empty
  string, \<open>not html\<close> holds of it, and the result is the failed-to-fetch record instead
  of the extraction of the empty document.
\<close>

theorem scrape_page_empty_body_counterexample:
  "fst (can_fetch default_config (mini_web []) ''http://d.org/'' (init_state 0))
   \<and> fst (fetch_html default_config (mini_web []) ''http://d.org/''
        (snd (can_fetch default_config (mini_web []) ''http://d.org/'' (init_state 0)))) = Inr (Some [])
   \<and> fst (scrape_page default_config (mini_web []) ''http://d.org/'' (init_state 0)) =
       Inr \<lparr>title = Some ''No Title'', description = None, meta_keywords = None,
            content = ''Failed to fetch http://d.org/'', links = []\<rparr>
   \<and> extract_content default_config (html_parser (mini_web [])) (urljoin (mini_web [])) []
        ''http://d.org/'' =
       Inr \<lparr>title = Some ''No Title'', description = Some ''No Description'',
            meta_keywords = Some ''No Keywords'', content = ''No main content found.'', links = []\<rparr>"
  by code_simp

text \<open>The theorem at a denied page, at a page that cannot be fetched and at a fetched page.\<close>

theorem scrape_page_state_machine_witness:
  "\<not> fst (can_fetch default_config (mini_web []) ''http://deny.org/'' (init_state 0))
   \<and> scrape_page default_config (mini_web []) ''http://deny.org/'' (init_state 0) =
        (Inr \<lparr>title = Some ''No Title'', description = None, meta_keywords = None,
              content = ''Access denied by robots.txt'', links = []\<rparr>,
         snd (can_fetch default_config (mini_web []) ''http://deny.org/'' (init_state 0)))
   \<and> filter is_fetch_event (new_events (init_state 0)
        (snd (scrape_page default_config (mini_web []) ''http://deny.org/'' (init_state 0)))) = []
   \<and> fst (can_fetch default_config (mini_web []) ''http://down.org/'' (init_state 0))
   \<and> fst (fetch_html default_config (mini_web []) ''http://down.org/''
        (snd (can_fetch default_config (mini_web []) ''http://down.org/'' (init_state 0)))) = Inr None
   \<and> fst (scrape_page default_config (mini_web []) ''http://down.org/'' (init_state 0)) =
        Inr \<lparr>title = Some ''No Title'', description = None, meta_keywords = None,
             content = ''Failed to fetch '' @ ''http://down.org/'', links = []\<rparr>
   \<and> fst (can_fetch default_config (mini_web []) ''http://a.org/'' (init_state 0))
   \<and> fst (fetch_html default_config (mini_web []) ''http://a.org/''
        (snd (can_fetch default_config (mini_web []) ''http://a.org/'' (init_state 0))))
       = Inr (Some links_html)
   \<and> links_html \<noteq> []
   \<and> fst (scrape_page default_config (mini_web []) ''http://a.org/'' (init_state 0)) =
        extract_content default_config (html_parser (mini_web []))
          (urljoin (mini_web [])) links_html ''http://a.org/''"
proof -
  have d: "\<not> fst (can_fetch default_config (mini_web []) ''http://deny.org/'' (init_state 0))"
    by code_simp
  have f1: "fst (can_fetch default_config (mini_web []) ''http://down.org/'' (init_state 0))"
    by code_simp
  have f2: "fst (fetch_html default_config (mini_web []) ''http://down.org/''
        (snd (can_fetch default_config (mini_web []) ''http://down.org/'' (init_state 0)))) = Inr None"
    by code_simp
  have p1: "fst (can_fetch default_config (mini_web []) ''http://a.org/'' (init_state 0))"
    by code_simp
  have p2: "fst (fetch_html default_config (mini_web []) ''http://a.org/''
        (snd (can_fetch default_config (mini_web []) ''http://a.org/'' (init_state 0))))
       = Inr (Some links_html)"
    by code_simp
  have p3: "links_html \<noteq> []" by (simp add: links_html_def)
  show ?thesis
    using d f1 f2 p1 p2 p3
      scrape_page_state_machine[of default_config "mini_web []" "''http://deny.org/''" "init_state 0"]
      scrape_page_state_machine[of default_config "mini_web []" "''http://down.org/''" "init_state 0"]
      scrape_page_state_machine[of default_config "mini_web []" "''http://a.org/''"
        "init_state 0" links_html]
    by blast
qed

section \<open>Substrings\<close>

lemma starts_with_iff: "starts_with p s \<longleftrightarrow> (\<exists>post. s = p @ post)"
  by (induction p s rule: starts_with.induct) auto

lemma py_in_iff: "py_in sub s \<longleftrightarrow> (\<exists>pre post. s = pre @ sub @ post)"
proof (induction s)
  case Nil
  show ?case by auto
next
  case (Cons c cs)
  have "(\<exists>pre post. c # cs = pre @ sub @ post) \<longleftrightarrow>
        (\<exists>post. c # cs = sub @ post) \<or> (\<exists>pre post. cs = pre @ sub @ post)"
  proof
    assume "\<exists>pre post. c # cs = pre @ sub @ post"
    then obtain pre post where e: "c # cs = pre @ sub @ post" by blast
    show "(\<exists>post. c # cs = sub @ post) \<or> (\<exists>pre post. cs = pre @ sub @ post)"
    proof (cases pre)
      case Nil
      then show ?thesis using e by auto
    next
      case (Cons a pre')
      then have "cs = pre' @ sub @ post" using e by simp
      then show ?thesis by blast
    qed
  next
    assume "(\<exists>post. c # cs = sub @ post) \<or> (\<exists>pre post. cs = pre @ sub @ post)"
    then show "\<exists>pre post. c # cs = pre @ sub @ post"
    proof
      assume "\<exists>post. c # cs = sub @ post"
      then obtain post where "c # cs = [] @ sub @ post" by auto
      then show ?thesis by blast
    next
      assume "\<exists>pre post. cs = pre @ sub @ post"
      then obtain pre post where "c # cs = (c # pre) @ sub @ post" by auto
      then show ?thesis by blast
    qed
  qed
  then show ?case using Cons.IH by (simp add: starts_with_iff)
qed

section \<open>The combined pipeline\<close>

lemma robots_reads_append [simp]: "robots_reads (xs @ ys) = robots_reads xs @ robots_reads ys"
  by (induction xs rule: robots_reads.induct) simp_all

lemma respect_rate_limit_robots_reads:
  "\<exists>es. trace (respect_rate_limit cfg w url s) = trace s @ es \<and> robots_reads es = []"
  using respect_rate_limit_trace[of cfg w url s] by auto

lemma fetch_attempts_robots_reads:
  "\<exists>es. trace (snd (fetch_attempts cfg w url ks s)) = trace s @ es \<and> robots_reads es = []"
proof (induction ks arbitrary: s)
  case Nil
  show ?case by simp
next
  case (Cons k ks)
  let ?s1 = "respect_rate_limit cfg w url s"
  let ?r = "http_get w (user_agent cfg) (timeout cfg) url (clock ?s1)"
  let ?s2 = "advance (snd ?r) (emit (HttpGet url (clock ?s1)) ?s1)"
  obtain es1 where es1: "trace ?s1 = trace s @ es1" "robots_reads es1 = []"
    using respect_rate_limit_robots_reads by blast
  have t2: "trace ?s2 = trace s @ (es1 @ [HttpGet url (clock ?s1)])" using es1 by simp
  show ?case
  proof (cases "fst ?r")
    case RequestException
    let ?s3 = "sleep Backoff (2 ^ k) (emit (Log LogWarning url) ?s2)"
    obtain es where es: "trace (snd (fetch_attempts cfg w url ks ?s3)) = trace ?s3 @ es"
        "robots_reads es = []"
      using Cons.IH[of ?s3] by blast
    have "fetch_attempts cfg w url (k # ks) s = fetch_attempts cfg w url ks ?s3"
      using RequestException by (simp add: Let_def)
    then have "trace (snd (fetch_attempts cfg w url (k # ks) s)) =
        trace s @ (es1 @ [HttpGet url (clock ?s1), Log LogWarning url, Sleep Backoff (2 ^ k)] @ es)"
      using es(1) es1(1) by simp
    then show ?thesis using es(2) es1(2)
      by (intro exI[of _ "es1 @ [HttpGet url (clock ?s1), Log LogWarning url, Sleep Backoff (2 ^ k)] @ es"]) simp
  next
    case (Response body)
    then have "fetch_attempts cfg w url (k # ks) s = (Some body, ?s2)" by (simp add: Let_def)
    then show ?thesis using t2 es1(2)
      by (intro exI[of _ "es1 @ [HttpGet url (clock ?s1)]"]) simp
  qed
qed

lemma fetch_html_robots_reads:
  "\<exists>es. trace (snd (fetch_html cfg w url s)) = trace s @ es \<and> robots_reads es = []"
proof (cases "enable_js cfg")
  case True
  then show ?thesis
    by (auto simp: fetch_html_def fetch_js_page_def Let_def split: js_outcome.splits)
next
  case False
  then show ?thesis
    using fetch_attempts_robots_reads[of cfg w url "[0..<nat (max_retries cfg)]" s]
    by (simp add: fetch_html_def fetch_page_def)
qed

lemma can_fetch_robots_reads:
  "\<exists>es. trace (snd (can_fetch cfg w url s)) = trace s @ es \<and> robots_reads es = [url]"
  by (auto simp: can_fetch_def Let_def split: robots_outcome.splits)

lemma scrape_page_robots_reads:
  "\<exists>es. trace (snd (scrape_page cfg w url s)) = trace s @ es \<and> robots_reads es = [url]"
proof -
  obtain es1 where es1: "trace (snd (can_fetch cfg w url s)) = trace s @ es1" "robots_reads es1 = [url]"
    using can_fetch_robots_reads by blast
  show ?thesis
  proof (cases "fst (can_fetch cfg w url s)")
    case False
    then show ?thesis using es1 by (simp add: scrape_page_denied)
  next
    case True
    obtain es where es: "trace (snd (fetch_html cfg w url (snd (can_fetch cfg w url s)))) =
        trace (snd (can_fetch cfg w url s)) @ es" "robots_reads es = []"
      using fetch_html_robots_reads by blast
    have "trace (snd (scrape_page cfg w url s)) = trace s @ (es1 @ es)"
      using es(1) es1(1) by (simp add: scrape_page_allowed[OF True])
    then show ?thesis using es(2) es1(2) by (intro exI[of _ "es1 @ es"]) simp
  qed
qed

lemma scrape_urls_robots_reads:
  "\<exists>es. trace (snd (scrape_urls w urls sd s)) = trace s @ es \<and> robots_reads es = urls"
proof (induction urls arbitrary: sd s)
  case Nil
  show ?case by simp
next
  case (Cons url urls)
  let ?r = "scrape_page default_config w url s"
  obtain es1 where es1: "trace (snd ?r) = trace s @ es1" "robots_reads es1 = [url]"
    using scrape_page_robots_reads by blast
  show ?case
  proof (cases "fst ?r")
    case (Inl e)
    let ?s2 = "emit (Log ConsolePrint url) (snd ?r)"
    obtain es where es: "trace (snd (scrape_urls w urls sd ?s2)) = trace ?s2 @ es" "robots_reads es = urls"
      using Cons.IH[of sd ?s2] by blast
    have "scrape_urls w (url # urls) sd s = scrape_urls w urls sd ?s2"
      using Inl by (simp add: Let_def)
    then have "trace (snd (scrape_urls w (url # urls) sd s)) = trace s @ (es1 @ [Log ConsolePrint url] @ es)"
      using es(1) es1(1) by simp
    then show ?thesis using es(2) es1(2)
      by (intro exI[of _ "es1 @ [Log ConsolePrint url] @ es"]) simp
  next
    case (Inr page)
    obtain es where es: "trace (snd (scrape_urls w urls (sd(url \<mapsto> page)) (snd ?r))) = trace (snd ?r) @ es"
        "robots_reads es = urls"
      using Cons.IH[of "sd(url \<mapsto> page)" "snd ?r"] by blast
    have "scrape_urls w (url # urls) sd s = scrape_urls w urls (sd(url \<mapsto> page)) (snd ?r)"
      using Inr by (simp add: Let_def)
    then have "trace (snd (scrape_urls w (url # urls) sd s)) = trace s @ (es1 @ es)"
      using es(1) es1(1) by simp
    then show ?thesis using es(2) es1(2) by (intro exI[of _ "es1 @ es"]) simp
  qed
qed



lemma combine_result:
  "fst (combine w skip sd rs s) =
     map (\<lambda>r. combined_record w r (sd (link r)))
       (filter (\<lambda>r. \<not> (skip \<and> is_restricted (sd (link r)))) rs)"
  by (induction rs arbitrary: s) (auto simp: Let_def)

lemma combine_trace:
  "\<exists>es. trace (snd (combine w skip sd rs s)) = trace s @ es \<and> robots_reads es = []"
proof (induction rs arbitrary: s)
  case Nil
  show ?case by simp
next
  case (Cons r rs)
  show ?case
  proof (cases "skip \<and> is_restricted (sd (link r))")
    case True
    let ?s1 = "emit (Log ConsolePrint (link r)) s"
    obtain es where es: "trace (snd (combine w skip sd rs ?s1)) = trace ?s1 @ es" "robots_reads es = []"
      using Cons.IH[of ?s1] by blast
    have "trace (snd (combine w skip sd (r # rs) s)) = trace s @ ([Log ConsolePrint (link r)] @ es)"
      using True es(1) by (simp add: Let_def)
    then show ?thesis using es(2) by (intro exI[of _ "[Log ConsolePrint (link r)] @ es"]) simp
  next
    case False
    then show ?thesis using Cons.IH[of s] by (auto simp: Let_def)
  qed
qed

section \<open>The cache and the pipeline\<close>

lemma search_and_scrape_hit:
  "cache_get c q = Some R \<Longrightarrow>
   search_and_scrape w q skip opts c s = (R, c, emit (Log ConsolePrint q) s)"
  by (simp add: search_and_scrape_def)

lemma search_and_scrape_no_results:
  "cache_get c q = None \<Longrightarrow> search w q opts (clock s) = [] \<Longrightarrow>
   search_and_scrape w q skip opts c s =
     ([], c, emit (Log ConsolePrint q) (emit (SearchCall q) (emit (Log ConsolePrint q) s)))"
  by (simp add: search_and_scrape_def Let_def)

lemma search_and_scrape_miss:
  assumes "cache_get c q = None" and "search w q opts (clock s) \<noteq> []"
  shows "search_and_scrape w q skip opts c s =
     (fst (combine w skip
             (fst (scrape_urls w (map link (search w q opts (clock s))) Map.empty
                    (emit (SearchCall q) (emit (Log ConsolePrint q) s))))
             (search w q opts (clock s))
             (snd (scrape_urls w (map link (search w q opts (clock s))) Map.empty
                    (emit (SearchCall q) (emit (Log ConsolePrint q) s))))),
      cache_put c q
        (fst (combine w skip
             (fst (scrape_urls w (map link (search w q opts (clock s))) Map.empty
                    (emit (SearchCall q) (emit (Log ConsolePrint q) s))))
             (search w q opts (clock s))
             (snd (scrape_urls w (map link (search w q opts (clock s))) Map.empty
                    (emit (SearchCall q) (emit (Log ConsolePrint q) s)))))),
      snd (combine w skip
             (fst (scrape_urls w (map link (search w q opts (clock s))) Map.empty
                    (emit (SearchCall q) (emit (Log ConsolePrint q) s))))
             (search w q opts (clock s))
             (snd (scrape_urls w (map link (search w q opts (clock s))) Map.empty
                    (emit (SearchCall q) (emit (Log ConsolePrint q) s))))))"
  using assms by (simp add: search_and_scrape_def Let_def)

lemma search_and_scrape_trace:
  assumes "cache_get c q = None" and "search w q opts (clock s) \<noteq> []"
  shows "\<exists>es1 es2. trace (snd (snd (search_and_scrape w q skip opts c s))) =
            trace s @ [Log ConsolePrint q, SearchCall q] @ es1 @ es2
          \<and> trace (snd (scrape_urls w (map link (search w q opts (clock s))) Map.empty
                    (emit (SearchCall q) (emit (Log ConsolePrint q) s)))) =
            trace s @ [Log ConsolePrint q, SearchCall q] @ es1
          \<and> robots_reads es1 = map link (search w q opts (clock s)) \<and> robots_reads es2 = []"
proof -
  let ?s1 = "emit (SearchCall q) (emit (Log ConsolePrint q) s)"
  let ?rs = "search w q opts (clock s)"
  let ?sc = "scrape_urls w (map link ?rs) Map.empty ?s1"
  obtain es1 where es1: "trace (snd ?sc) = trace ?s1 @ es1" "robots_reads es1 = map link ?rs"
    using scrape_urls_robots_reads by blast
  obtain es2 where es2: "trace (snd (combine w skip (fst ?sc) ?rs (snd ?sc))) = trace (snd ?sc) @ es2"
      "robots_reads es2 = []"
    using combine_trace by blast
  have "trace (snd (snd (search_and_scrape w q skip opts c s))) =
      trace s @ [Log ConsolePrint q, SearchCall q] @ es1 @ es2"
    using es1(1) es2(1) by (simp add: search_and_scrape_miss[OF assms])
  moreover have "trace (snd ?sc) = trace s @ [Log ConsolePrint q, SearchCall q] @ es1"
    using es1(1) by simp
  ultimately show ?thesis using es1(2) es2(2) by blast
qed

text \<open>
  C3 (as amended). For a query that is in the cache, \<open>search_and_scrape\<close> returns the
  cached sequence as it is, leaves the cache alone and does nothing but print one line:
  no search, no policy check, no fetch. For a query that is not in the cache it calls
  the search; when the search returns at least one result it scrapes the link of every
  result, in order, and stores the combined result under exactly that query before
  returning it; when the search returns no result it returns the empty sequence and
  leaves the cache as it was.
\<close>

theorem search_and_scrape_cache:
  "(cache_get c q = Some R \<longrightarrow>
      search_and_scrape w q skip opts c s = (R, c, emit (Log ConsolePrint q) s))
   \<and> (cache_get c q = None \<and> search w q opts (clock s) \<noteq> [] \<longrightarrow>
        fst (snd (search_and_scrape w q skip opts c s)) =
          c(q \<mapsto> fst (search_and_scrape w q skip opts c s))
      \<and> cache_get (fst (snd (search_and_scrape w q skip opts c s))) q =
          Some (fst (search_and_scrape w q skip opts c s))
      \<and> SearchCall q \<in> set (new_events s (snd (snd (search_and_scrape w q skip opts c s))))
      \<and> robots_reads (new_events s (snd (snd (search_and_scrape w q skip opts c s)))) =
          map link (search w q opts (clock s)))
   \<and> (cache_get c q = None \<and> search w q opts (clock s) = [] \<longrightarrow>
        fst (search_and_scrape w q skip opts c s) = []
      \<and> fst (snd (search_and_scrape w q skip opts c s)) = c
      \<and> SearchCall q \<in> set (new_events s (snd (snd (search_and_scrape w q skip opts c s)))))"
proof -
  have miss: "fst (snd (search_and_scrape w q skip opts c s)) =
          c(q \<mapsto> fst (search_and_scrape w q skip opts c s))
      \<and> cache_get (fst (snd (search_and_scrape w q skip opts c s))) q =
          Some (fst (search_and_scrape w q skip opts c s))
      \<and> SearchCall q \<in> set (new_events s (snd (snd (search_and_scrape w q skip opts c s))))
      \<and> robots_reads (new_events s (snd (snd (search_and_scrape w q skip opts c s)))) =
          map link (search w q opts (clock s))"
    if m: "cache_get c q = None" "search w q opts (clock s) \<noteq> []"
  proof -
    obtain es1 es2 where tr: "trace (snd (snd (search_and_scrape w q skip opts c s))) =
            trace s @ [Log ConsolePrint q, SearchCall q] @ es1 @ es2"
        "robots_reads es1 = map link (search w q opts (clock s))" "robots_reads es2 = []"
      using search_and_scrape_trace[OF m] by blast
    have ne: "new_events s (snd (snd (search_and_scrape w q skip opts c s))) =
        [Log ConsolePrint q, SearchCall q] @ es1 @ es2"
      using tr(1) by simp
    show ?thesis
      unfolding ne using tr(2,3)
      by (simp add: search_and_scrape_miss[OF m] cache_put_def cache_get_def)
  qed
  have empty: "fst (search_and_scrape w q skip opts c s) = []
      \<and> fst (snd (search_and_scrape w q skip opts c s)) = c
      \<and> SearchCall q \<in> set (new_events s (snd (snd (search_and_scrape w q skip opts c s))))"
    if m: "cache_get c q = None" "search w q opts (clock s) = []"
    by (simp add: search_and_scrape_no_results[OF m] new_events_def)
  show ?thesis using miss empty by (auto simp: search_and_scrape_hit)
qed

text \<open>
  C3 as stated fails at a query without search results: the empty result is returned
  by the early \<open>return []\<close> and the query is still not in the cache afterwards.
\<close>

theorem search_and_scrape_cache_counterexample:
  "cache_get Map.empty ''nothing'' = None
   \<and> fst (search_and_scrape (mini_web []) ''nothing'' True no_opts Map.empty (init_state 0)) = []
   \<and> cache_get (fst (snd (search_and_scrape (mini_web []) ''nothing'' True no_opts Map.empty (init_state 0))))
        ''nothing'' = None"
  by code_simp

text \<open>
  The theorem at a first run that fills the cache, at a second run of the same query
  (against a search engine that would now find nothing) and at a query without results.
\<close>

theorem search_and_scrape_cache_witness:
  "cache_get Map.empty ''q'' = None
   \<and> search (mini_web [result_a]) ''q'' no_opts (clock (init_state 0)) \<noteq> []
   \<and> cache_get (fst (snd (search_and_scrape (mini_web [result_a]) ''q'' True no_opts Map.empty (init_state 0))))
        ''q'' =
       Some (fst (search_and_scrape (mini_web [result_a]) ''q'' True no_opts Map.empty (init_state 0)))
   \<and> search_and_scrape (mini_web []) ''q'' False no_opts
        (fst (snd (search_and_scrape (mini_web [result_a]) ''q'' True no_opts Map.empty (init_state 0))))
        (init_state 5) =
       (fst (search_and_scrape (mini_web [result_a]) ''q'' True no_opts Map.empty (init_state 0)),
        fst (snd (search_and_scrape (mini_web [result_a]) ''q'' True no_opts Map.empty (init_state 0))),
        emit (Log ConsolePrint ''q'') (init_state 5))
   \<and> search (mini_web []) ''nothing'' no_opts (clock (init_state 0)) = []
   \<and> fst (snd (search_and_scrape (mini_web []) ''nothing'' True no_opts Map.empty (init_state 0))) = Map.empty
   \<and> fst (search_and_scrape (mini_web [result_a]) ''q'' True no_opts Map.empty (init_state 0)) =
       [\<lparr>combined_title = ''A'', combined_snippet = ''about a'', combined_link = ''http://a.org/'',
         scraped_content = ''see x'', word_count = 2, source = ''a.org'',
         scraped_links = [''http://a.org/y'', ''http://a.org/x'']\<rparr>]"
proof -
  have m: "cache_get Map.empty k = None" for k :: string
    by (simp add: cache_get_def)
  have r: "search (mini_web [result_a]) ''q'' no_opts (clock (init_state 0)) \<noteq> []"
    by (simp add: mini_web_def)
  have e: "search (mini_web []) ''nothing'' no_opts (clock (init_state 0)) = []"
    by (simp add: mini_web_def)
  have v: "fst (search_and_scrape (mini_web [result_a]) ''q'' True no_opts Map.empty (init_state 0)) =
       [\<lparr>combined_title = ''A'', combined_snippet = ''about a'', combined_link = ''http://a.org/'',
         scraped_content = ''see x'', word_count = 2, source = ''a.org'',
         scraped_links = [''http://a.org/y'', ''http://a.org/x'']\<rparr>]"
    by code_simp
  have h: "cache_get (fst (snd (search_and_scrape (mini_web [result_a]) ''q'' True no_opts Map.empty (init_state 0))))
        ''q'' =
       Some (fst (search_and_scrape (mini_web [result_a]) ''q'' True no_opts Map.empty (init_state 0)))"
    using m[of "''q''"] r search_and_scrape_cache[where c = Map.empty and q = "''q''" and w = "mini_web [result_a]"
        and opts = no_opts and s = "init_state 0" and skip = True]
    by blast
  have hit: "search_and_scrape (mini_web []) ''q'' False no_opts
        (fst (snd (search_and_scrape (mini_web [result_a]) ''q'' True no_opts Map.empty (init_state 0))))
        (init_state 5) =
       (fst (search_and_scrape (mini_web [result_a]) ''q'' True no_opts Map.empty (init_state 0)),
        fst (snd (search_and_scrape (mini_web [result_a]) ''q'' True no_opts Map.empty (init_state 0))),
        emit (Log ConsolePrint ''q'') (init_state 5))"
    using h search_and_scrape_cache[where
        c = "fst (snd (search_and_scrape (mini_web [result_a]) ''q'' True no_opts Map.empty (init_state 0)))"
        and q = "''q''"
        and R = "fst (search_and_scrape (mini_web [result_a]) ''q'' True no_opts Map.empty (init_state 0))"
        and w = "mini_web []" and opts = no_opts and s = "init_state 5" and skip = False]
    by simp
  have none: "fst (snd (search_and_scrape (mini_web []) ''nothing'' True no_opts Map.empty (init_state 0))) =
      Map.empty"
    using m[of "''nothing''"] e
      search_and_scrape_cache[where c = Map.empty and q = "''nothing''" and w = "mini_web []"
        and opts = no_opts and s = "init_state 0" and skip = True]
    by simp
  show ?thesis using m[of "''q''"] r e v h hit none by simp
qed

lemma search_and_scrape_stores:
  assumes "cache_get c q = None" and "search w q opts (clock s) \<noteq> []"
  shows "cache_get (fst (snd (search_and_scrape w q skip opts c s))) q =
     Some (fst (search_and_scrape w q skip opts c s))"
  by (simp add: search_and_scrape_miss[OF assms] cache_put_def cache_get_def)

lemma search_and_scrape_other_keys:
  "k \<noteq> q \<Longrightarrow> cache_get (fst (snd (search_and_scrape w q skip opts c s))) k = cache_get c k"
  by (simp add: search_and_scrape_def Let_def cache_put_def cache_get_def split: option.splits)

lemma search_and_scrape_fold_other_keys:
  "k \<notin> set qs \<Longrightarrow>
   cache_get (fst (fold (\<lambda>q cs. snd (search_and_scrape w q skip opts (fst cs) (snd cs))) qs cs)) k =
     cache_get (fst cs) k"
  by (induction qs arbitrary: cs) (simp_all add: search_and_scrape_other_keys)

lemma search_and_scrape_miss_searches:
  assumes m: "cache_get c q = None"
  shows "SearchCall q \<in> set (new_events s (snd (snd (search_and_scrape w q skip opts c s))))"
proof (cases "search w q opts (clock s) = []")
  case True
  then show ?thesis by (simp add: search_and_scrape_no_results[OF m] new_events_def)
next
  case False
  obtain es1 es2 where "trace (snd (snd (search_and_scrape w q skip opts c s))) =
          trace s @ [Log ConsolePrint q, SearchCall q] @ es1 @ es2"
    using search_and_scrape_trace[OF m False] by blast
  then have "new_events s (snd (snd (search_and_scrape w q skip opts c s))) =
      [Log ConsolePrint q, SearchCall q] @ es1 @ es2" by simp
  then show ?thesis by simp
qed

text \<open>
  C8. What a run of \<open>search_and_scrape\<close> stores under a query (line 110), a later run
  of the same query reads back (lines 41-45) and returns as it was stored, whatever
  the search engine would answer by then; more generally a run returns any sequence
  \<open>R\<close> that the cache holds for the query, without searching, and a sequence stored
  under a query is what the lookup of that query gives. A query that no run has
  stored anything under is still a miss after any sequence of runs of other queries
  that starts from the empty cache. The miss differs from a stored empty sequence,
  and the pipeline tells the two apart: on a stored sequence, the empty one
  included, it does not search; on a miss it does.
\<close>

theorem cache_round_trip:
  "(cache_get c q = None \<and> search w q opts (clock s) \<noteq> [] \<longrightarrow>
      search_and_scrape w' q skip' opts' (fst (snd (search_and_scrape w q skip opts c s))) s' =
        (fst (search_and_scrape w q skip opts c s),
         fst (snd (search_and_scrape w q skip opts c s)),
         emit (Log ConsolePrint q) s'))
   \<and> (cache_get c q = Some R \<longrightarrow>
        search_and_scrape w q skip opts c s = (R, c, emit (Log ConsolePrint q) s)
      \<and> SearchCall q \<notin> set (new_events s (snd (snd (search_and_scrape w q skip opts c s)))))
   \<and> cache_get (cache_put c q R) q = Some R
   \<and> (q \<notin> set qs \<longrightarrow>
        cache_get (fst (fold (\<lambda>k cs. snd (search_and_scrape w k skip opts (fst cs) (snd cs))) qs
                          (Map.empty, s))) q = None)
   \<and> (cache_get c q = None \<longrightarrow>
        SearchCall q \<in> set (new_events s (snd (snd (search_and_scrape w q skip opts c s)))))"
proof -
  have a: "search_and_scrape w' q skip' opts' (fst (snd (search_and_scrape w q skip opts c s))) s' =
        (fst (search_and_scrape w q skip opts c s),
         fst (snd (search_and_scrape w q skip opts c s)),
         emit (Log ConsolePrint q) s')"
    if m: "cache_get c q = None" "search w q opts (clock s) \<noteq> []"
    using search_and_scrape_stores[OF m] by (rule search_and_scrape_hit)
  have b: "search_and_scrape w q skip opts c s = (R, c, emit (Log ConsolePrint q) s)
      \<and> SearchCall q \<notin> set (new_events s (snd (snd (search_and_scrape w q skip opts c s))))"
    if h: "cache_get c q = Some R"
    by (simp add: search_and_scrape_hit[OF h] new_events_def)
  have p: "cache_get (cache_put c q R) q = Some R"
    by (simp add: cache_get_def cache_put_def)
  have n: "cache_get (fst (fold (\<lambda>k cs. snd (search_and_scrape w k skip opts (fst cs) (snd cs))) qs
                          (Map.empty, s))) q = None"
    if k: "q \<notin> set qs"
    using search_and_scrape_fold_other_keys[OF k, where cs = "(Map.empty, s)"]
    by (simp add: cache_get_def)
  have d: "SearchCall q \<in> set (new_events s (snd (snd (search_and_scrape w q skip opts c s))))"
    if m: "cache_get c q = None"
    using m by (rule search_and_scrape_miss_searches)
  show ?thesis by (intro conjI impI a b p n d) simp_all
qed

text \<open>
  The theorem at a run that stores one record and a second run of the same query
  against a search engine that would now find nothing; at a run that stores the empty
  sequence, because its only result is denied by robots.txt and skipped, and a second
  run of the same query; and at a query that has not been run.
\<close>

theorem cache_round_trip_witness:
  "cache_get Map.empty ''q'' = None
   \<and> search (mini_web [result_a]) ''q'' no_opts (clock (init_state 0)) \<noteq> []
   \<and> fst (search_and_scrape (mini_web [result_a]) ''q'' True no_opts Map.empty (init_state 0)) =
       [\<lparr>combined_title = ''A'', combined_snippet = ''about a'', combined_link = ''http://a.org/'',
         scraped_content = ''see x'', word_count = 2, source = ''a.org'',
         scraped_links = [''http://a.org/y'', ''http://a.org/x'']\<rparr>]
   \<and> fst (search_and_scrape (mini_web []) ''q'' False no_opts
        (fst (snd (search_and_scrape (mini_web [result_a]) ''q'' True no_opts Map.empty (init_state 0))))
        (init_state 5)) =
       [\<lparr>combined_title = ''A'', combined_snippet = ''about a'', combined_link = ''http://a.org/'',
         scraped_content = ''see x'', word_count = 2, source = ''a.org'',
         scraped_links = [''http://a.org/y'', ''http://a.org/x'']\<rparr>]
   \<and> SearchCall ''q'' \<notin> set (new_events (init_state 5) (snd (snd
        (search_and_scrape (mini_web []) ''q'' False no_opts
           (fst (snd (search_and_scrape (mini_web [result_a]) ''q'' True no_opts Map.empty (init_state 0))))
           (init_state 5)))))
   \<and> search (mini_web [result_deny]) ''q'' no_opts (clock (init_state 0)) \<noteq> []
   \<and> cache_get
        (fst (snd (search_and_scrape (mini_web [result_deny]) ''q'' True no_opts Map.empty (init_state 0))))
        ''q'' = Some []
   \<and> fst (search_and_scrape (mini_web [result_a]) ''q'' True no_opts
        (fst (snd (search_and_scrape (mini_web [result_deny]) ''q'' True no_opts Map.empty (init_state 0))))
        (init_state 5)) = []
   \<and> SearchCall ''q'' \<notin> set (new_events (init_state 5) (snd (snd
        (search_and_scrape (mini_web [result_a]) ''q'' True no_opts
           (fst (snd (search_and_scrape (mini_web [result_deny]) ''q'' True no_opts Map.empty (init_state 0))))
           (init_state 5)))))
   \<and> ''other'' \<notin> set [''q'']
   \<and> cache_get (fst (fold (\<lambda>k cs. snd (search_and_scrape (mini_web [result_deny]) k True no_opts (fst cs) (snd cs)))
        [''q''] (Map.empty, init_state 0))) ''other'' = None
   \<and> SearchCall ''other'' \<in> set (new_events (init_state 5) (snd (snd
        (search_and_scrape (mini_web [result_a]) ''other'' True no_opts
           (fst (fold (\<lambda>k cs. snd (search_and_scrape (mini_web [result_deny]) k True no_opts (fst cs) (snd cs)))
              [''q''] (Map.empty, init_state 0)))
           (init_state 5)))))"
proof -
  let ?A = "search_and_scrape (mini_web [result_a]) ''q'' True no_opts Map.empty (init_state 0)"
  let ?D = "search_and_scrape (mini_web [result_deny]) ''q'' True no_opts Map.empty (init_state 0)"
  let ?F = "fold (\<lambda>k cs. snd (search_and_scrape (mini_web [result_deny]) k True no_opts (fst cs) (snd cs)))
        [''q''] (Map.empty, init_state 0)"
  have m: "cache_get Map.empty ''q'' = None"
    by (simp add: cache_get_def)
  have ra: "search (mini_web [result_a]) ''q'' no_opts (clock (init_state 0)) \<noteq> []"
    by (simp add: mini_web_def)
  have rd: "search (mini_web [result_deny]) ''q'' no_opts (clock (init_state 0)) \<noteq> []"
    by (simp add: mini_web_def)
  have va: "fst ?A =
       [\<lparr>combined_title = ''A'', combined_snippet = ''about a'', combined_link = ''http://a.org/'',
         scraped_content = ''see x'', word_count = 2, source = ''a.org'',
         scraped_links = [''http://a.org/y'', ''http://a.org/x'']\<rparr>]"
    by code_simp
  have vd: "fst ?D = []"
    by code_simp
  have o: "''other'' \<notin> set [''q'']"
    by simp
  have again_a: "search_and_scrape (mini_web []) ''q'' False no_opts (fst (snd ?A)) (init_state 5) =
      (fst ?A, fst (snd ?A), emit (Log ConsolePrint ''q'') (init_state 5))"
    using m ra cache_round_trip[where c = Map.empty and q = "''q''" and w = "mini_web [result_a]"
        and skip = True and opts = no_opts and s = "init_state 0"
        and w' = "mini_web []" and skip' = False and opts' = no_opts and s' = "init_state 5"]
    by simp
  have ha: "fst (search_and_scrape (mini_web []) ''q'' False no_opts (fst (snd ?A)) (init_state 5)) =
       [\<lparr>combined_title = ''A'', combined_snippet = ''about a'', combined_link = ''http://a.org/'',
         scraped_content = ''see x'', word_count = 2, source = ''a.org'',
         scraped_links = [''http://a.org/y'', ''http://a.org/x'']\<rparr>]"
    using again_a va by simp
  have sa: "cache_get (fst (snd ?A)) ''q'' = Some
       [\<lparr>combined_title = ''A'', combined_snippet = ''about a'', combined_link = ''http://a.org/'',
         scraped_content = ''see x'', word_count = 2, source = ''a.org'',
         scraped_links = [''http://a.org/y'', ''http://a.org/x'']\<rparr>]"
    by code_simp
  have na: "SearchCall ''q'' \<notin> set (new_events (init_state 5) (snd (snd
        (search_and_scrape (mini_web []) ''q'' False no_opts (fst (snd ?A)) (init_state 5)))))"
    using sa cache_round_trip[where c = "fst (snd ?A)" and q = "''q''"
        and R = "[\<lparr>combined_title = ''A'', combined_snippet = ''about a'', combined_link = ''http://a.org/'',
         scraped_content = ''see x'', word_count = 2, source = ''a.org'',
         scraped_links = [''http://a.org/y'', ''http://a.org/x'']\<rparr>]"
        and w = "mini_web []" and skip = False and opts = no_opts and s = "init_state 5"]
    by simp
  have again_d: "search_and_scrape (mini_web [result_a]) ''q'' True no_opts (fst (snd ?D)) (init_state 5) =
      (fst ?D, fst (snd ?D), emit (Log ConsolePrint ''q'') (init_state 5))"
    using m rd cache_round_trip[where c = Map.empty and q = "''q''" and w = "mini_web [result_deny]"
        and skip = True and opts = no_opts and s = "init_state 0"
        and w' = "mini_web [result_a]" and skip' = True and opts' = no_opts and s' = "init_state 5"]
    by simp
  have hd: "fst (search_and_scrape (mini_web [result_a]) ''q'' True no_opts (fst (snd ?D)) (init_state 5)) = []"
    using again_d vd by simp
  have sd: "cache_get (fst (snd ?D)) ''q'' = Some []"
    by code_simp
  have nd: "SearchCall ''q'' \<notin> set (new_events (init_state 5) (snd (snd
        (search_and_scrape (mini_web [result_a]) ''q'' True no_opts (fst (snd ?D)) (init_state 5)))))"
    using sd cache_round_trip[where c = "fst (snd ?D)" and q = "''q''" and R = "[]"
        and w = "mini_web [result_a]" and skip = True and opts = no_opts and s = "init_state 5"]
    by simp
  have f: "cache_get (fst ?F) ''other'' = None"
    using o cache_round_trip[where q = "''other''" and qs = "[''q'']" and w = "mini_web [result_deny]"
        and skip = True and opts = no_opts and s = "init_state 0"]
    by simp
  have so: "SearchCall ''other'' \<in> set (new_events (init_state 5) (snd (snd
        (search_and_scrape (mini_web [result_a]) ''other'' True no_opts (fst ?F) (init_state 5)))))"
    using f cache_round_trip[where c = "fst ?F" and q = "''other''"
        and w = "mini_web [result_a]" and skip = True and opts = no_opts and s = "init_state 5"]
    by simp
  show ?thesis by (intro conjI m ra va ha na rd sd hd nd o f so)
qed

section \<open>Failures in the batch\<close>





section \<open>Restricted pages\<close>

lemma is_restricted_iff:
  "is_restricted (Some p) \<longleftrightarrow> (\<exists>pre post. content p = pre @ ''Access denied by robots.txt'' @ post)"
  by (simp add: is_restricted_def py_in_iff)

text \<open>
  C10. A scraped record counts as robots-restricted exactly when
  \<open>"Access denied by robots.txt"\<close> occurs somewhere in its content. So a page that was
  fetched and extracted and whose text contains the phrase is left out of the combined
  output when restricted pages are skipped, and gets word count 0 otherwise.
\<close>

theorem restricted_by_substring:
  assumes "scraped_data (link r) = Some p"
    and "content p = pre @ ''Access denied by robots.txt'' @ post"
  shows "is_restricted (scraped_data (link r))
       \<and> link r \<notin> set (map combined_link (fst (combine w True scraped_data rs s)))
       \<and> (\<forall>x \<in> set (fst (combine w False scraped_data rs s)).
             combined_link x = link r \<longrightarrow> word_count x = 0)
       \<and> (r \<in> set rs \<longrightarrow> combined_record w r (Some p) \<in> set (fst (combine w False scraped_data rs s)))
       \<and> (is_restricted (Some p') \<longleftrightarrow>
            (\<exists>pre' post'. content p' = pre' @ ''Access denied by robots.txt'' @ post'))"
proof -
  have res: "is_restricted (scraped_data (link r))"
    using assms by (auto simp: is_restricted_iff)
  have cl: "combined_link (combined_record w x sc) = link x" for x sc
    by (simp add: combined_record_def Let_def)
  have a: "link r \<notin> set (map combined_link (fst (combine w True scraped_data rs s)))"
    using res by (auto simp: combine_result cl)
  have b: "\<forall>x \<in> set (fst (combine w False scraped_data rs s)).
             combined_link x = link r \<longrightarrow> word_count x = 0"
    using res by (auto simp: combine_result cl) (simp add: combined_record_def Let_def)
  have c: "combined_record w r (Some p) \<in> set (fst (combine w False scraped_data rs s))"
    if "r \<in> set rs"
    using that assms(1) by (auto simp: combine_result intro!: image_eqI[of _ _ r])
  show ?thesis using res a b c is_restricted_iff by blast
qed

text \<open>
  The theorem at a page that robots.txt allows and that quotes the phrase in its text,
  through the whole pipeline.
\<close>

theorem restricted_by_substring_witness:
  "fst (scrape_urls (mini_web [result_a, result_c]) [''http://a.org/'', ''http://c.org/''] Map.empty
         (init_state 0)) (link result_c) =
     Some \<lparr>title = Some ''No Title'', description = Some ''No Description'',
           meta_keywords = Some ''No Keywords'',
           content = ''The server said: Access denied by robots.txt (sic)'', links = []\<rparr>
   \<and> ''The server said: Access denied by robots.txt (sic)'' =
       ''The server said: '' @ ''Access denied by robots.txt'' @ '' (sic)''
   \<and> result_c \<in> set [result_a, result_c]
   \<and> is_restricted (fst (scrape_urls (mini_web [result_a, result_c]) [''http://a.org/'', ''http://c.org/'']
         Map.empty (init_state 0)) (link result_c))
   \<and> fst (can_fetch default_config (mini_web [result_a, result_c]) ''http://c.org/'' (init_state 0))
   \<and> link result_c \<notin> set (map combined_link
        (fst (search_and_scrape (mini_web [result_a, result_c]) ''q'' True no_opts Map.empty (init_state 0))))
   \<and> fst (search_and_scrape (mini_web [result_a, result_c]) ''q'' True no_opts Map.empty (init_state 0)) =
       [\<lparr>combined_title = ''A'', combined_snippet = ''about a'', combined_link = ''http://a.org/'',
         scraped_content = ''see x'', word_count = 2, source = ''a.org'',
         scraped_links = [''http://a.org/y'', ''http://a.org/x'']\<rparr>]
   \<and> fst (search_and_scrape (mini_web [result_a, result_c]) ''q'' False no_opts Map.empty (init_state 0)) =
       [\<lparr>combined_title = ''A'', combined_snippet = ''about a'', combined_link = ''http://a.org/'',
         scraped_content = ''see x'', word_count = 2, source = ''a.org'',
         scraped_links = [''http://a.org/y'', ''http://a.org/x'']\<rparr>,
        \<lparr>combined_title = ''C'', combined_snippet = ''about c'', combined_link = ''http://c.org/'',
         scraped_content = ''The server said: Access denied by robots.txt (sic)'', word_count = 0,
         source = ''c.org'', scraped_links = []\<rparr>]"
proof -
  let ?sd = "fst (scrape_urls (mini_web [result_a, result_c]) [''http://a.org/'', ''http://c.org/'']
      Map.empty (init_state 0))"
  have h1: "?sd (link result_c) =
     Some \<lparr>title = Some ''No Title'', description = Some ''No Description'',
           meta_keywords = Some ''No Keywords'',
           content = ''The server said: Access denied by robots.txt (sic)'', links = []\<rparr>"
    by code_simp
  have h2: "content \<lparr>title = Some ''No Title'', description = Some ''No Description'',
           meta_keywords = Some ''No Keywords'',
           content = ''The server said: Access denied by robots.txt (sic)'', links = []\<rparr> =
       ''The server said: '' @ ''Access denied by robots.txt'' @ '' (sic)''"
    by simp
  have m: "result_c \<in> set [result_a, result_c]" by simp
  have ok: "fst (can_fetch default_config (mini_web [result_a, result_c]) ''http://c.org/'' (init_state 0))"
    by code_simp
  have v1: "fst (search_and_scrape (mini_web [result_a, result_c]) ''q'' True no_opts Map.empty (init_state 0)) =
       [\<lparr>combined_title = ''A'', combined_snippet = ''about a'', combined_link = ''http://a.org/'',
         scraped_content = ''see x'', word_count = 2, source = ''a.org'',
         scraped_links = [''http://a.org/y'', ''http://a.org/x'']\<rparr>]"
    by code_simp
  have v2: "fst (search_and_scrape (mini_web [result_a, result_c]) ''q'' False no_opts Map.empty (init_state 0)) =
       [\<lparr>combined_title = ''A'', combined_snippet = ''about a'', combined_link = ''http://a.org/'',
         scraped_content = ''see x'', word_count = 2, source = ''a.org'',
         scraped_links = [''http://a.org/y'', ''http://a.org/x'']\<rparr>,
        \<lparr>combined_title = ''C'', combined_snippet = ''about c'', combined_link = ''http://c.org/'',
         scraped_content = ''The server said: Access denied by robots.txt (sic)'', word_count = 0,
         source = ''c.org'', scraped_links = []\<rparr>]"
    by code_simp
  have n: "link result_c \<notin> set (map combined_link
        (fst (search_and_scrape (mini_web [result_a, result_c]) ''q'' True no_opts Map.empty (init_state 0))))"
    unfolding v1 by (simp add: result_c_def)
  have e: "''The server said: Access denied by robots.txt (sic)'' =
       ''The server said: '' @ ''Access denied by robots.txt'' @ '' (sic)''"
    by simp
  have ir: "is_restricted (?sd (link result_c))"
    using restricted_by_substring[where scraped_data = ?sd and r = result_c
        and p = "\<lparr>title = Some ''No Title'', description = Some ''No Description'',
           meta_keywords = Some ''No Keywords'',
           content = ''The server said: Access denied by robots.txt (sic)'', links = []\<rparr>"
        and pre = "''The server said: ''" and post = "'' (sic)''"
        and w = "mini_web [result_a, result_c]" and rs = "[result_a, result_c]" and s = "init_state 0",
        OF h1 h2]
    by (rule conjunct1)
  show ?thesis by (intro conjI h1 e m ir ok n v1 v2)
qed

end
